theory Spec2Isabelle
  imports Complex_Main "HOL-Library.Sublist"
begin

section \<open>Python strings\<close>

text \<open>
  A Python \<open>str\<close> is a sequence of code points. The model is \<open>string\<close>, one \<open>char\<close>
  per code point, so it covers the texts whose code points lie in the range 0..255
  (ASCII and Latin-1); \<open>length\<close> is Python's \<open>len\<close> and \<open>code_point\<close> is \<open>ord\<close>. The character classes below are
  the ones of Python 3 on that range: \<open>str.isspace\<close> and the regular expression class
  \<open>\s\<close> agree there, \<open>\d\<close> is 0-9, \<open>\w\<close> is alphanumeric or underscore.
\<close>

definition code_point :: "char \<Rightarrow> int" where
  "code_point c = of_char c"

definition is_space :: "char \<Rightarrow> bool" where
  "is_space c = (let n = code_point c in
     (9 \<le> n \<and> n \<le> 13) \<or> (28 \<le> n \<and> n \<le> 32) \<or> n = 133 \<or> n = 160)"

definition is_digit :: "char \<Rightarrow> bool" where
  "is_digit c = (let n = code_point c in 48 \<le> n \<and> n \<le> 57)"

definition is_ascii_letter :: "char \<Rightarrow> bool" where
  "is_ascii_letter c = (let n = code_point c in
     (65 \<le> n \<and> n \<le> 90) \<or> (97 \<le> n \<and> n \<le> 122))"

definition is_word :: "char \<Rightarrow> bool" where
  "is_word c = (let n = code_point c in
     is_digit c \<or> is_ascii_letter c \<or> n = 95 \<or> n = 170 \<or> n = 178 \<or> n = 179 \<or> n = 181 \<or>
     n = 185 \<or> n = 186 \<or> (188 \<le> n \<and> n \<le> 190) \<or> (192 \<le> n \<and> n \<le> 214) \<or>
     (216 \<le> n \<and> n \<le> 246) \<or> 248 \<le> n)"

definition lower_char :: "char \<Rightarrow> char" where
  "lower_char c = (let n = code_point c in
     if (65 \<le> n \<and> n \<le> 90) \<or> (192 \<le> n \<and> n \<le> 222 \<and> n \<noteq> 215) then char_of (n + 32) else c)"

definition lower :: "string \<Rightarrow> string" where
  "lower s = map lower_char s"

definition strip :: "string \<Rightarrow> string" where
  "strip s = rev (dropWhile is_space (rev (dropWhile is_space s)))"

text \<open>\<open>sub in s\<close> on strings: \<open>sub\<close> occurs in \<open>s\<close> as a contiguous run.\<close>

fun contains :: "string \<Rightarrow> string \<Rightarrow> bool" where
  "contains s [] = (s = [])"
| "contains s (c # cs) = (prefix s (c # cs) \<or> contains s cs)"

text \<open>\<open>any(p in s for p in ps)\<close>\<close>

definition any_in :: "string list \<Rightarrow> string \<Rightarrow> bool" where
  "any_in ps s = list_ex (\<lambda>p. contains p s) ps"

text \<open>Python's \<open>xs[a:b]\<close> for integers \<open>a\<close> and \<open>b\<close>: a negative bound counts from the end,
  and both bounds are clamped to the list.\<close>

definition slice_bound :: "nat \<Rightarrow> int \<Rightarrow> nat" where
  "slice_bound n i = (if i < 0 then nat (max (i + int n) 0) else min (nat i) n)"

definition py_slice :: "'a list \<Rightarrow> int \<Rightarrow> int \<Rightarrow> 'a list" where
  "py_slice xs a b =
     (let lo = slice_bound (length xs) a; hi = slice_bound (length xs) b
      in take (hi - lo) (drop lo xs))"

section \<open>Content type detection\<close>

definition podcast_indicators :: "string list" where
  "podcast_indicators = [''podcast'', ''transcript'', ''audio'', ''episode'', ''interview'']"

definition podcast_content_indicators :: "string list" where
  "podcast_content_indicators =
     [''transcript:'', ''speaker:'', ''host:'', ''[music]'', ''[applause]'']"

definition call_indicators :: "string list" where
  "call_indicators =
     [''call transcript'', ''meeting transcript'', ''call notes'', ''meeting notes'']"

definition call_content_indicators :: "string list" where
  "call_content_indicators =
     [''attendees:'', ''participants:'', ''meeting started'', ''call ended'']"

definition youtube_title_indicators :: "string list" where
  "youtube_title_indicators = [''podcast'', ''interview'', ''talk'', ''discussion'']"

definition detect_content_type :: "string \<Rightarrow> string \<Rightarrow> string \<Rightarrow> string" where
  "detect_content_type url title content =
    (let url_lower = lower url;
         title_lower = lower title;
         content_lower = take 500 (lower content)
     in
       if contains ''linkedin.com'' url_lower then
         (if contains ''/posts/'' url_lower \<or> contains ''/feed/update/'' url_lower
            then ''linkedin_post''
          else if contains ''/pulse/'' url_lower then ''blog''
          else ''linkedin_post'')
       else if contains ''reddit.com'' url_lower then
         (if contains ''/comments/'' url_lower then ''reddit_comment'' else ''reddit_comment'')
       else if any_in podcast_indicators url_lower then ''podcast_transcript''
       else if any_in podcast_indicators title_lower then ''podcast_transcript''
       else if any_in podcast_content_indicators content_lower then ''podcast_transcript''
       else if any_in call_indicators title_lower then ''call_transcript''
       else if any_in call_content_indicators content_lower then ''call_transcript''
       else if contains ''youtube.com'' url_lower \<or> contains ''youtu.be'' url_lower then
         (if any_in youtube_title_indicators title_lower then ''podcast_transcript''
          else ''blog'')
       else ''blog'')"

section \<open>Regular expressions\<close>

text \<open>
  The patterns of the source are sequences of atoms: a word boundary \<open>\b\<close>, one character
  of a class, or a greedy repetition \<open>+\<close>, \<open>*\<close>, \<open>{n,}\<close> of a class. \<open>match_atoms\<close> is
  Python's backtracking matcher on them, anchored at the current position: a repetition
  takes the longest run first and gives characters back one at a time. The result is the
  length of the match. \<open>prev\<close> is the character before the position, for \<open>\b\<close>.
\<close>

datatype atom = WordB | One "char \<Rightarrow> bool" | Many "char \<Rightarrow> bool" nat

fun first_some :: "('a \<Rightarrow> 'b option) \<Rightarrow> 'a list \<Rightarrow> 'b option" where
  "first_some f [] = None"
| "first_some f (x # xs) = (case f x of Some y \<Rightarrow> Some y | None \<Rightarrow> first_some f xs)"

definition at_word_boundary :: "char option \<Rightarrow> string \<Rightarrow> bool" where
  "at_word_boundary prev s =
     ((case prev of None \<Rightarrow> False | Some c \<Rightarrow> is_word c)
        \<noteq> (case s of [] \<Rightarrow> False | c # _ \<Rightarrow> is_word c))"

fun match_atoms :: "atom list \<Rightarrow> char option \<Rightarrow> string \<Rightarrow> nat option" where
  "match_atoms [] prev s = Some 0"
| "match_atoms (WordB # as) prev s =
     (if at_word_boundary prev s then match_atoms as prev s else None)"
| "match_atoms (One p # as) prev s =
     (case s of [] \<Rightarrow> None
      | c # cs \<Rightarrow> if p c then map_option Suc (match_atoms as (Some c) cs) else None)"
| "match_atoms (Many p mn # as) prev s =
     first_some
       (\<lambda>k. map_option ((+) k)
              (match_atoms as (if k = 0 then prev else Some (s ! (k - 1))) (drop k s)))
       (rev [mn ..< Suc (length (takeWhile p s))])"

text \<open>\<open>re.search\<close> as a truth value: the pattern matches at some position.\<close>

fun search_from :: "atom list \<Rightarrow> char option \<Rightarrow> string \<Rightarrow> bool" where
  "search_from as prev [] = (match_atoms as prev [] \<noteq> None)"
| "search_from as prev (c # cs) =
     (match_atoms as prev (c # cs) \<noteq> None \<or> search_from as (Some c) cs)"

definition re_search :: "atom list \<Rightarrow> string \<Rightarrow> bool" where
  "re_search as s = search_from as None s"

text \<open>
  \<open>re.finditer\<close>: the non-overlapping matches from left to right, as (start, end)
  offsets. \<open>skip\<close> counts the characters of the last match still to pass over. After an
  empty match the scan moves on by one character.
\<close>

fun scan_matches :: "atom list \<Rightarrow> char option \<Rightarrow> string \<Rightarrow> nat \<Rightarrow> nat \<Rightarrow> (nat \<times> nat) list" where
  "scan_matches as prev [] pos skip =
     (if skip = 0 then (case match_atoms as prev [] of Some n \<Rightarrow> [(pos, pos + n)] | None \<Rightarrow> [])
      else [])"
| "scan_matches as prev (c # cs) pos skip =
     (if 0 < skip then scan_matches as (Some c) cs (Suc pos) (skip - 1)
      else (case match_atoms as prev (c # cs) of
              Some n \<Rightarrow> (pos, pos + n) # scan_matches as (Some c) cs (Suc pos) (n - 1)
            | None \<Rightarrow> scan_matches as (Some c) cs (Suc pos) 0))"

definition finditer :: "atom list \<Rightarrow> string \<Rightarrow> (nat \<times> nat) list" where
  "finditer as s = scan_matches as None s 0 0"

text \<open>A literal, as written and under \<open>re.IGNORECASE\<close>.\<close>

definition lit :: "string \<Rightarrow> atom list" where
  "lit p = map (\<lambda>c. One (\<lambda>x. x = c)) p"

definition lit_ci :: "string \<Rightarrow> atom list" where
  "lit_ci p = map (\<lambda>c. One (\<lambda>x. lower_char x = lower_char c)) p"

definition is_lower_az :: "char \<Rightarrow> bool" where
  "is_lower_az c = (let n = code_point c in 97 \<le> n \<and> n \<le> 122)"

section \<open>Article URLs\<close>

definition article_indicators :: "string list" where
  "article_indicators =
     [''/blog/'', ''/post/'', ''/article/'', ''/story/'', ''/guide/'',
      ''/tutorial/'', ''/how-to/'', ''/tips/'', ''/news/'', ''/insights/'',
      ''/p-'', ''/post-'', ''/article-'']"

definition avoid_patterns :: "string list" where
  "avoid_patterns =
     [''/tag/'', ''/category/'', ''/author/'', ''/page/'', ''/search/'',
      ''/login/'', ''/register/'', ''/contact/'', ''/about/'', ''/api/'',
      ''.pdf'', ''.jpg'', ''.png'', ''.gif'', ''.css'', ''.js'', ''.xml'',
      ''/feed'', ''/rss'', ''/sitemap'', ''/book'', ''/demo'', ''/pricing'',
      ''/trial'', ''/signup'', ''/calendar'', ''/schedule'', ''cal.com'',
      ''calendly.com'', ''/meeting'', ''/appointment'', ''/call'', ''/intro'',
      ''/consultation'', ''/support'', ''/help'', ''/faq'', ''/terms'',
      ''/privacy'', ''/policy'', ''/legal'', ''/careers'', ''/jobs'']"

text \<open>\<open>/20\d{2}/\<close>\<close>

definition date_pattern :: "atom list" where
  "date_pattern = lit ''/20'' @ [One is_digit, One is_digit] @ lit ''/''"

text \<open>\<open>/p-\d+\<close>, \<open>[a-z]+-[a-z]+-[a-z]+\<close> and \<open>/\d+/\<close>\<close>

definition modern_patterns :: "atom list list" where
  "modern_patterns =
     [lit ''/p-'' @ [Many is_digit 1],
      [Many is_lower_az 1] @ lit ''-'' @ [Many is_lower_az 1] @ lit ''-'' @ [Many is_lower_az 1],
      lit ''/'' @ [Many is_digit 1] @ lit ''/'']"

definition has_article_indicator :: "string \<Rightarrow> bool" where
  "has_article_indicator url = any_in article_indicators (lower url)"

definition has_date :: "string \<Rightarrow> bool" where
  "has_date url = re_search date_pattern url"

definition has_modern_pattern :: "string \<Rightarrow> bool" where
  "has_modern_pattern url = list_ex (\<lambda>p. re_search p url) modern_patterns"

definition has_avoid_pattern :: "string \<Rightarrow> bool" where
  "has_avoid_pattern url = any_in avoid_patterns (lower url)"

definition is_likely_article_url :: "string \<Rightarrow> bool" where
  "is_likely_article_url url =
     ((has_article_indicator url \<or> has_date url \<or> has_modern_pattern url)
      \<and> \<not> has_avoid_pattern url)"

section \<open>PDF chunking\<close>

text \<open>
  A chunk is the dictionary that \<open>chunk_text\<close> builds, with its keys \<open>title\<close>,
  \<open>content\<close>, \<open>content_type\<close>, \<open>chunk_index\<close> and \<open>total_chunks\<close> (the first three
  prefixed here, the names being taken by \<open>ContentItem\<close>).
\<close>

record chunk =
  chunk_title :: string
  chunk_content :: string
  chunk_type :: string
  chunk_index :: nat
  total_chunks :: nat

record book_chapter =
  chapter_title :: string
  chapter_content :: string
  chapter_index :: nat

text \<open>
  The two \<open>while\<close> loops of the chunker need not terminate for every \<open>chunk_size\<close> and
  \<open>chunk_overlap\<close>, and indexing a string can raise. A run either returns, raises, or
  is cut off when the fuel, a bound on the loop iterations, is used up.
\<close>

datatype py_error = IndexError

datatype 'a outcome = Returns 'a | Raises py_error | OutOfFuel

text \<open>What a run returned, if it returned.\<close>

definition returned :: "'a outcome \<Rightarrow> 'a option" where
  "returned r = (case r of Returns x \<Rightarrow> Some x | Raises e \<Rightarrow> None | OutOfFuel \<Rightarrow> None)"

text \<open>\<open>s[i]\<close> for an integer \<open>i\<close>: a negative index counts from the end.\<close>

definition py_get :: "string \<Rightarrow> int \<Rightarrow> py_error + char" where
  "py_get s i =
     (let n = int (length s); j = (if i < 0 then n + i else i)
      in if 0 \<le> j \<and> j < n then Inr (s ! nat j) else Inl IndexError)"

text \<open>\<open>s.rfind(sub, a, b)\<close> for a non-empty \<open>sub\<close>: the highest index in the slice
  \<open>a:b\<close> at which \<open>sub\<close> starts and fits, or -1.\<close>

fun rfind_scan :: "string \<Rightarrow> string \<Rightarrow> nat \<Rightarrow> nat \<Rightarrow> nat \<Rightarrow> nat option \<Rightarrow> nat option" where
  "rfind_scan sub [] pos lo hi best = best"
| "rfind_scan sub (c # cs) pos lo hi best =
     rfind_scan sub cs (Suc pos) lo hi
       (if lo \<le> pos \<and> pos + length sub \<le> hi \<and> prefix sub (c # cs) then Some pos else best)"

definition py_rfind :: "string \<Rightarrow> string \<Rightarrow> int \<Rightarrow> int \<Rightarrow> int" where
  "py_rfind s sub a b =
     (case rfind_scan sub s 0 (slice_bound (length s) a) (slice_bound (length s) b) None of
        None \<Rightarrow> - 1
      | Some i \<Rightarrow> int i)"

text \<open>\<open>re.sub(r'\s+', ' ', text)\<close>\<close>

function collapse_ws :: "string \<Rightarrow> string" where
  "collapse_ws [] = []"
| "collapse_ws (c # cs) =
     (if is_space c then CHR '' '' # collapse_ws (dropWhile is_space cs)
      else c # collapse_ws cs)"
  by pat_completeness auto
termination
  by (relation "measure length") (auto intro: le_imp_less_Suc length_dropWhile_le)

text \<open>\<open>str(n)\<close> for a natural number, as in the f-strings of the titles.\<close>

fun str_of_nat :: "nat \<Rightarrow> string" where
  "str_of_nat n =
     (if n < 10 then [''0123456789'' ! n]
      else str_of_nat (n div 10) @ [''0123456789'' ! (n mod 10)])"

declare str_of_nat.simps [simp del]

definition newline :: char where
  "newline = CHR 0x0A"

definition is_dot :: "char \<Rightarrow> bool" where
  "is_dot c = (c = CHR ''.'')"

definition dot_or_space :: "char \<Rightarrow> bool" where
  "dot_or_space c = (is_dot c \<or> is_space c)"

text \<open>The chapter patterns, all under \<open>re.IGNORECASE\<close>, so that \<open>[A-Z]\<close> is any ASCII
  letter; \<open>re.MULTILINE\<close> changes nothing, no pattern has an anchor.\<close>

definition chapter_patterns :: "atom list list" where
  "chapter_patterns =
     [[WordB] @ lit_ci ''Chapter'' @ [Many is_space 1, Many is_digit 1, One dot_or_space],
      [WordB] @ lit_ci ''Ch'' @ [Many is_space 0, Many is_digit 1, One dot_or_space],
      [WordB] @ lit_ci ''CHAPTER'' @ [Many is_space 1, Many is_digit 1, One dot_or_space],
      [WordB] @ lit_ci ''Ch'' @ [Many is_space 1, Many is_digit 1, One is_dot],
      [WordB] @ lit_ci ''Ch'' @ [Many is_digit 1, One is_dot],
      [WordB, Many is_digit 1, One is_dot, Many is_space 1, One is_ascii_letter,
       Many (\<lambda>c. \<not> is_dot c) 10],
      [One (\<lambda>c. c = newline), Many is_space 0, Many is_digit 1, Many is_space 1,
       One is_ascii_letter, Many (\<lambda>c. \<not> is_dot c \<and> c \<noteq> newline) 10],
      [One (\<lambda>c. c = newline), Many is_space 0] @ lit_ci ''Ch''
        @ [Many is_space 0, Many is_digit 1, One dot_or_space]]"

text \<open>\<open>re.sub(r'^(Chapter|Ch|CHAPTER)\s*\d+[.\s]*', '', title_line)\<close>: no flag here, the
  alternatives are tried in order at the start of the line, and the match is removed.\<close>

definition title_prefixes :: "atom list list" where
  "title_prefixes =
     map (\<lambda>w. lit w @ [Many is_space 0, Many is_digit 1, Many dot_or_space 0])
       [''Chapter'', ''Ch'', ''CHAPTER'']"

definition strip_title_prefix :: "string \<Rightarrow> string" where
  "strip_title_prefix title_line =
     (case first_some (\<lambda>p. match_atoms p None title_line) title_prefixes of
        None \<Rightarrow> title_line
      | Some n \<Rightarrow> drop n title_line)"

fun chapters_of :: "string \<Rightarrow> (nat \<times> nat) list \<Rightarrow> nat \<Rightarrow> book_chapter list" where
  "chapters_of text [] i = []"
| "chapters_of text (m # ms) i =
     (let start_pos = fst m;
          end_pos = (case ms of [] \<Rightarrow> length text | m' # _ \<Rightarrow> fst m');
          content = strip (py_slice text (int start_pos) (int end_pos));
          title_match = py_slice text (int start_pos) (int start_pos + 200);
          title_line = strip (takeWhile (\<lambda>c. c \<noteq> newline) title_match);
          title_clean = strip (strip_title_prefix title_line)
      in \<lparr>chapter_title = (if title_clean = [] then ''Chapter '' @ str_of_nat (i + 1)
                            else title_clean),
          chapter_content = content, chapter_index = i\<rparr>
         # chapters_of text ms (i + 1))"

fun find_chapters_with :: "atom list list \<Rightarrow> string \<Rightarrow> book_chapter list" where
  "find_chapters_with [] text = []"
| "find_chapters_with (pattern # patterns) text =
     (let matches = finditer pattern text
      in if 2 \<le> length matches then chapters_of text matches 0
         else find_chapters_with patterns text)"

definition find_chapter_boundaries :: "string \<Rightarrow> book_chapter list" where
  "find_chapter_boundaries text = find_chapters_with chapter_patterns text"

text \<open>The search for a sentence end: the first \<open>i\<close> of the range with \<open>.\<close>, \<open>!\<close> or
  \<open>?\<close> at \<open>i\<close> and a space at \<open>i + 1\<close> gives the new end \<open>i + 1\<close>.\<close>

fun scan_sentence_end :: "string \<Rightarrow> int list \<Rightarrow> py_error + int option" where
  "scan_sentence_end s [] = Inr None"
| "scan_sentence_end s (i # is) =
     (if i < int (length s) then
        (case py_get s i of
           Inl e \<Rightarrow> Inl e
         | Inr c \<Rightarrow>
             if c \<in> set ''.!?'' then
               (if i + 1 < int (length s) then
                  (case py_get s (i + 1) of
                     Inl e \<Rightarrow> Inl e
                   | Inr d \<Rightarrow> if d = CHR '' '' then Inr (Some (i + 1))
                              else scan_sentence_end s is)
                else scan_sentence_end s is)
             else scan_sentence_end s is)
      else scan_sentence_end s is)"

definition split_break :: "string \<Rightarrow> int \<Rightarrow> int \<Rightarrow> py_error + int" where
  "split_break content start end0 =
     (if end0 < int (length content) then
        (let paragraph_break = py_rfind content [newline, newline] start (end0 + 200)
         in if paragraph_break > start then Inr paragraph_break
            else (case scan_sentence_end content [end0 - 100 .. end0 + 100 - 1] of
                    Inl e \<Rightarrow> Inl e
                  | Inr None \<Rightarrow> Inr end0
                  | Inr (Some e) \<Rightarrow> Inr e))
      else Inr end0)"

fun split_loop ::
  "nat \<Rightarrow> int \<Rightarrow> int \<Rightarrow> string \<Rightarrow> string \<Rightarrow> nat \<Rightarrow> int \<Rightarrow> nat \<Rightarrow> chunk list
     \<Rightarrow> chunk list outcome" where
  "split_loop 0 chunk_size chunk_overlap content title idx start part_index sub_chunks =
     (if start < int (length content) then OutOfFuel else Returns sub_chunks)"
| "split_loop (Suc fuel) chunk_size chunk_overlap content title idx start part_index sub_chunks =
     (if start < int (length content) then
        (case split_break content start (start + chunk_size) of
           Inl e \<Rightarrow> Raises e
         | Inr end \<Rightarrow>
             (let chunk_content = strip (py_slice content start end);
                  emitted = (chunk_content \<noteq> []);
                  sub_chunks' =
                    (if emitted then
                       sub_chunks @
                         [\<lparr>chunk_title = title @ '' (Part '' @ str_of_nat part_index @ '')'',
                           chunk_content = chunk_content, chunk_type = ''book'',
                           chunk_index = idx, total_chunks = 0\<rparr>]
                     else sub_chunks);
                  part_index' = (if emitted then part_index + 1 else part_index);
                  start' = (if end - chunk_overlap \<le> 0 then end else end - chunk_overlap)
              in split_loop fuel chunk_size chunk_overlap content title idx start'
                   part_index' sub_chunks'))
      else Returns sub_chunks)"

definition split_large_chapter ::
  "nat \<Rightarrow> int \<Rightarrow> int \<Rightarrow> string \<Rightarrow> string \<Rightarrow> nat \<Rightarrow> chunk list outcome" where
  "split_large_chapter fuel chunk_size chunk_overlap content title idx =
     split_loop fuel chunk_size chunk_overlap content title idx 0 1 []"

fun chapter_loop ::
  "nat \<Rightarrow> int \<Rightarrow> int \<Rightarrow> nat \<Rightarrow> book_chapter list \<Rightarrow> nat \<Rightarrow> chunk list \<Rightarrow> chunk list outcome" where
  "chapter_loop fuel chunk_size chunk_overlap n [] i final_chunks = Returns final_chunks"
| "chapter_loop fuel chunk_size chunk_overlap n (ch # chs) i final_chunks =
     (if int (length (chapter_content ch)) > chunk_size * 2 then
        (case split_large_chapter fuel chunk_size chunk_overlap (chapter_content ch)
                (chapter_title ch) i of
           Returns sub_chunks \<Rightarrow>
             chapter_loop fuel chunk_size chunk_overlap n chs (i + 1) (final_chunks @ sub_chunks)
         | Raises e \<Rightarrow> Raises e
         | OutOfFuel \<Rightarrow> OutOfFuel)
      else chapter_loop fuel chunk_size chunk_overlap n chs (i + 1)
             (final_chunks @
                [\<lparr>chunk_title = chapter_title ch, chunk_content = chapter_content ch,
                  chunk_type = ''book'', chunk_index = i, total_chunks = n\<rparr>]))"

text \<open>The back-fill of \<open>total_chunks\<close> once all chunks are known.\<close>

definition set_total :: "chunk list \<Rightarrow> chunk list" where
  "set_total chunks = map (\<lambda>c. c\<lparr>total_chunks := length chunks\<rparr>) chunks"

definition process_chapter_chunks ::
  "nat \<Rightarrow> int \<Rightarrow> int \<Rightarrow> book_chapter list \<Rightarrow> chunk list outcome" where
  "process_chapter_chunks fuel chunk_size chunk_overlap chapter_chunks =
     (case chapter_loop fuel chunk_size chunk_overlap (length chapter_chunks) chapter_chunks 0 []
      of Returns final_chunks \<Rightarrow> Returns (set_total final_chunks)
       | Raises e \<Rightarrow> Raises e
       | OutOfFuel \<Rightarrow> OutOfFuel)"

definition size_break :: "string \<Rightarrow> int \<Rightarrow> int \<Rightarrow> py_error + int" where
  "size_break text chunk_overlap end0 =
     (if end0 < int (length text) then
        (case scan_sentence_end text [end0 - chunk_overlap .. end0 + chunk_overlap - 1] of
           Inl e \<Rightarrow> Inl e
         | Inr None \<Rightarrow> Inr end0
         | Inr (Some e) \<Rightarrow> Inr e)
      else Inr end0)"

fun size_loop ::
  "nat \<Rightarrow> int \<Rightarrow> int \<Rightarrow> string \<Rightarrow> int \<Rightarrow> nat \<Rightarrow> chunk list \<Rightarrow> chunk list outcome" where
  "size_loop 0 chunk_size chunk_overlap text start idx chunks =
     (if start < int (length text) then OutOfFuel else Returns chunks)"
| "size_loop (Suc fuel) chunk_size chunk_overlap text start idx chunks =
     (if start < int (length text) then
        (case size_break text chunk_overlap (start + chunk_size) of
           Inl e \<Rightarrow> Raises e
         | Inr end \<Rightarrow>
             (let chunk_text = strip (py_slice text start end);
                  emitted = (chunk_text \<noteq> []);
                  chunks' =
                    (if emitted then
                       chunks @
                         [\<lparr>chunk_title = ''Section '' @ str_of_nat (idx + 1),
                           chunk_content = chunk_text, chunk_type = ''book'',
                           chunk_index = idx, total_chunks = 0\<rparr>]
                     else chunks);
                  idx' = (if emitted then idx + 1 else idx);
                  start' = (if end - chunk_overlap \<le> 0 then end else end - chunk_overlap)
              in size_loop fuel chunk_size chunk_overlap text start' idx' chunks'))
      else Returns chunks)"

definition size_based_chunking :: "nat \<Rightarrow> int \<Rightarrow> int \<Rightarrow> string \<Rightarrow> chunk list outcome" where
  "size_based_chunking fuel chunk_size chunk_overlap text =
     (case size_loop fuel chunk_size chunk_overlap text 0 0 [] of
        Returns chunks \<Rightarrow> Returns (set_total chunks)
      | Raises e \<Rightarrow> Raises e
      | OutOfFuel \<Rightarrow> OutOfFuel)"

definition clean_text :: "string \<Rightarrow> string" where
  "clean_text text = strip (collapse_ws text)"

definition chunk_text :: "nat \<Rightarrow> int \<Rightarrow> int \<Rightarrow> string \<Rightarrow> string \<Rightarrow> chunk list outcome" where
  "chunk_text fuel chunk_size chunk_overlap raw_text doc_title =
     (let text = clean_text raw_text
      in if int (length text) \<le> chunk_size then
           Returns [\<lparr>chunk_title = (if doc_title \<noteq> [] then doc_title @ '' (Complete)''
                                     else ''PDF Content''),
                     chunk_content = text, chunk_type = ''book'', chunk_index = 0,
                     total_chunks = 1\<rparr>]
         else (let chapter_chunks = find_chapter_boundaries text
               in if chapter_chunks \<noteq> [] then
                    process_chapter_chunks fuel chunk_size chunk_overlap chapter_chunks
                  else size_based_chunking fuel chunk_size chunk_overlap text))"

section \<open>Architecture detection\<close>

text \<open>
  The parsed page. BeautifulSoup is an external library, so a \<open>soup\<close> is modelled by what
  the source reads from it: \<open>scripts\<close> is \<open>script.get_text()\<close> for each element of
  \<open>soup.find_all('script')\<close>, \<open>elements\<close> lists the \<open>id\<close> and the \<open>class\<close> tokens of
  every tag, \<open>page_text\<close> is \<open>soup.get_text()\<close> and \<open>page_markup\<close> is \<open>str(soup)\<close>.
\<close>

record element =
  el_id :: "string option"
  el_classes :: "string list"

record soup =
  scripts :: "string list"
  elements :: "element list"
  page_text :: string
  page_markup :: string

record architecture =
  strategy :: string
  react :: bool
  vue :: bool
  angular :: bool
  next_js :: bool
  content_density :: real
  needs_js :: bool

text \<open>\<open>' '.join(xs)\<close>\<close>

fun join_sp :: "string list \<Rightarrow> string" where
  "join_sp [] = []"
| "join_sp [x] = x"
| "join_sp (x # y # ys) = x @ '' '' @ join_sp (y # ys)"

definition script_content :: "soup \<Rightarrow> string" where
  "script_content soup = join_sp (filter (\<lambda>t. t \<noteq> []) (scripts soup))"

text \<open>\<open>re.search(r'react|React|\breact\b', script_content, re.IGNORECASE)\<close>, and the same
  shape for the other three names: three alternatives, each under \<open>IGNORECASE\<close>.\<close>

definition framework_alternatives :: "string \<Rightarrow> string \<Rightarrow> atom list list" where
  "framework_alternatives name cap_name =
     [lit_ci name, lit_ci cap_name, [WordB] @ lit_ci name @ [WordB]]"

definition framework_flag :: "string \<Rightarrow> string \<Rightarrow> string \<Rightarrow> bool" where
  "framework_flag name cap_name s =
     list_ex (\<lambda>p. re_search p s) (framework_alternatives name cap_name)"

text \<open>\<open>soup.find(attrs={'id': v})\<close> and \<open>soup.find(attrs={'class': re.compile(r'app|root')})\<close>
  as truth values: the library tests the pattern with \<open>search\<close> on each class token.\<close>

definition find_id :: "soup \<Rightarrow> string \<Rightarrow> bool" where
  "find_id soup v = list_ex (\<lambda>e. el_id e = Some v) (elements soup)"

definition find_class_app_root :: "soup \<Rightarrow> bool" where
  "find_class_app_root soup =
     list_ex (\<lambda>e. list_ex (\<lambda>c. re_search (lit ''app'') c \<or> re_search (lit ''root'') c)
                     (el_classes e))
       (elements soup)"

definition has_spa_indicators :: "soup \<Rightarrow> bool" where
  "has_spa_indicators soup =
     (find_id soup ''root'' \<or> find_id soup ''app'' \<or> find_class_app_root soup)"

definition density :: "soup \<Rightarrow> real" where
  "density soup =
     real (length (strip (page_text soup))) / real (max (length (page_markup soup)) 1)"

definition detect_architecture :: "soup \<Rightarrow> string \<Rightarrow> architecture" where
  "detect_architecture soup url =
    (let sc = script_content soup;
         is_react = framework_flag ''react'' ''React'' sc;
         is_vue = framework_flag ''vue'' ''Vue'' sc;
         is_angular = framework_flag ''angular'' ''Angular'' sc;
         is_next = framework_flag ''next'' ''Next'' sc;
         strat = (if density soup < 2 / 100 \<or> has_spa_indicators soup then ''javascript_heavy''
                  else if is_react \<or> is_vue \<or> is_angular \<or> is_next then ''framework_based''
                  else ''static_html'')
     in \<lparr>strategy = strat, react = is_react, vue = is_vue, angular = is_angular,
          next_js = is_next, content_density = density soup,
          needs_js = (strat \<in> set [''javascript_heavy'', ''framework_based''])\<rparr>)"

section \<open>Main content extraction\<close>

text \<open>
  The four extraction strategies, the title and the author extraction query the DOM with
  CSS selectors and convert elements with the \<open>markdownify\<close> library; the remaining fields
  are the network and the browser. They are the parameters of the model: a \<open>world\<close> fixes
  what each of them returns. \<open>None\<close> stands for Python's \<open>None\<close> or a caught exception.
\<close>

record world =
  extract_by_semantic_tags :: "soup \<Rightarrow> string option"
  extract_by_common_classes :: "soup \<Rightarrow> string option"
  extract_by_content_density :: "soup \<Rightarrow> string option"
  extract_by_text_length :: "soup \<Rightarrow> string option"
  extract_title :: "soup \<Rightarrow> string"
  extract_author :: "soup \<Rightarrow> string"
  fetch_page :: "string \<Rightarrow> bool \<Rightarrow> soup option"
  fetch_with_playwright :: "string \<Rightarrow> soup option"
  fetch_with_requests_fallback :: "string \<Rightarrow> (string \<times> string) list"
  find_article_links :: "soup \<Rightarrow> string \<Rightarrow> string list"
  click_discovered_urls :: "string \<Rightarrow> int \<Rightarrow> (string \<times> string) list option"
  driver_page :: "string \<Rightarrow> soup option"

definition markdown_syntax_chars :: string where
  "markdown_syntax_chars = ''#*[]()_`-''"

definition is_quality_content :: "string \<Rightarrow> bool" where
  "is_quality_content content =
     (if content = [] \<or> length (strip content) < 100 then False
      else (let text_content = filter (\<lambda>c. c \<notin> set markdown_syntax_chars) content;
                ratio = real (length text_content) / real (length content)
            in ratio > 5 / 10))"

definition strategies :: "world \<Rightarrow> (soup \<Rightarrow> string option) list" where
  "strategies w =
     [extract_by_semantic_tags w, extract_by_common_classes w,
      extract_by_content_density w, extract_by_text_length w]"

definition extract_main_content :: "world \<Rightarrow> soup \<Rightarrow> string option" where
  "extract_main_content w soup =
     first_some
       (\<lambda>strategy. case strategy soup of
            None \<Rightarrow> None
          | Some content \<Rightarrow>
              if content \<noteq> [] \<and> is_quality_content content then Some content else None)
       (strategies w)"

section \<open>Scraping a web source\<close>

record content_item =
  title :: string
  content :: string
  content_type :: string
  source_url :: string
  author :: string
  user_id :: string

definition scrape_article :: "world \<Rightarrow> string \<Rightarrow> bool \<Rightarrow> content_item option" where
  "scrape_article w url use_js =
     (case fetch_page w url use_js of
        None \<Rightarrow> None
      | Some soup \<Rightarrow>
          (case extract_main_content w soup of
             None \<Rightarrow> None
           | Some c \<Rightarrow>
               if c = [] \<or> length (strip c) < 100 then None
               else Some \<lparr>title = extract_title w soup, content = c,
                          content_type = detect_content_type url (extract_title w soup) c,
                          source_url = url, author = extract_author w soup,
                          user_id = ''''\<rparr>))"

definition modern_platforms :: "string list" where
  "modern_platforms =
     [''quill.co/blog'', ''substack.com'', ''medium.com'', ''ghost.org'', ''notion.site'']"

definition should_use_click_discovery :: "string \<Rightarrow> bool" where
  "should_use_click_discovery base_url = any_in modern_platforms (lower base_url)"

text \<open>
  \<open>_scrape_with_click_discovery\<close>. The browser session that scrolls and clicks is
  \<open>click_discovered_urls\<close>: the (title, url) pairs it records, or \<open>None\<close> when no driver
  starts or the discovery raises (the method then returns the empty list).
  \<open>driver_page\<close> is the page the driver loads for a URL, \<open>None\<close> when loading raises,
  which skips the article.
\<close>

definition click_item :: "world \<Rightarrow> string \<times> string \<Rightarrow> content_item option" where
  "click_item w info =
     (case driver_page w (snd info) of
        None \<Rightarrow> None
      | Some soup \<Rightarrow>
          (case extract_main_content w soup of
             None \<Rightarrow> None
           | Some c \<Rightarrow>
               if c \<noteq> [] \<and> 100 \<le> length (strip c) then
                 Some \<lparr>title = (if extract_title w soup \<noteq> [] then extract_title w soup
                                 else fst info),
                       content = c, content_type = ''blog'', source_url = snd info,
                       author = extract_author w soup, user_id = ''''\<rparr>
               else None))"

definition scrape_with_click_discovery :: "world \<Rightarrow> string \<Rightarrow> int \<Rightarrow> content_item list" where
  "scrape_with_click_discovery w base_url max_articles =
     (case click_discovered_urls w base_url max_articles of
        None \<Rightarrow> []
      | Some discovered_urls \<Rightarrow> List.map_filter (click_item w) discovered_urls)"

text \<open>The placeholder item of the requests fallback; the fields not given take the
  defaults of \<open>ContentItem\<close>.\<close>

definition preview_item :: "string \<times> string \<Rightarrow> content_item" where
  "preview_item link_info =
     \<lparr>title = fst link_info,
      content = ''Article preview: '' @ fst link_info
                @ '' (Browser-based scraping not available in this environment)'',
      content_type = ''blog'', source_url = snd link_info, author = '''', user_id = ''''\<rparr>"

text \<open>The loop over the article links, with the items and \<open>scraped_urls\<close> passed along.\<close>

fun scrape_links ::
  "world \<Rightarrow> bool \<Rightarrow> string list \<Rightarrow> content_item list \<Rightarrow> string list \<Rightarrow> content_item list" where
  "scrape_links w use_js [] items scraped_urls = items"
| "scrape_links w use_js (url # urls) items scraped_urls =
     (if url \<in> set scraped_urls then scrape_links w use_js urls items scraped_urls
      else (case scrape_article w url use_js of
              Some item \<Rightarrow> scrape_links w use_js urls (items @ [item]) (url # scraped_urls)
            | None \<Rightarrow> scrape_links w use_js urls items scraped_urls))"

text \<open>
  \<open>scrape\<close> returns the items; \<open>click_discovery_ran\<close> records whether
  \<open>_scrape_with_click_discovery\<close> was called. Logging, the progress callback and the
  delay between requests do not affect the result and are left out. The \<open>title\<close> of a
  fallback link comes first in the pair, its \<open>url\<close> second.
\<close>

record scrape_result =
  items :: "content_item list"
  click_discovery_ran :: bool

definition scrape :: "world \<Rightarrow> string \<Rightarrow> int \<Rightarrow> scrape_result" where
  "scrape w base_url max_articles =
     (case fetch_page w base_url False of
        None \<Rightarrow> \<lparr>items = [], click_discovery_ran = False\<rparr>
      | Some soup0 \<Rightarrow>
          (let arch = detect_architecture soup0 base_url;
               rendered =
                 (if needs_js arch then
                    (case fetch_page w base_url True of
                       Some s \<Rightarrow> Some s
                     | None \<Rightarrow> fetch_with_playwright w base_url)
                  else Some soup0)
           in case rendered of
                None \<Rightarrow>
                  \<lparr>items = map preview_item (fetch_with_requests_fallback w base_url),
                   click_discovery_ran = False\<rparr>
              | Some soup \<Rightarrow>
                  (let article_links = find_article_links w soup base_url;
                       pattern_items =
                         scrape_links w (needs_js arch) (py_slice article_links 0 max_articles)
                           [] []
                   in if needs_js arch \<and> should_use_click_discovery base_url then
                        (let clicked = scrape_with_click_discovery w base_url max_articles
                         in if 0 < length clicked
                            then \<lparr>items = clicked, click_discovery_ran = True\<rparr>
                            else \<lparr>items = pattern_items, click_discovery_ran = True\<rparr>)
                      else \<lparr>items = pattern_items, click_discovery_ran = False\<rparr>)))"

section \<open>Example inputs\<close>

text \<open>Concrete pages and worlds, used to run the model.\<close>

definition react_page :: soup where
  "react_page =
     \<lparr>scripts = ['''', ''import React from 'react';''],
      elements = [\<lparr>el_id = Some ''main'', el_classes = [''container'']\<rparr>],
      page_text = '' hello '', page_markup = ''0123456789''\<rparr>"

definition long_body :: string where
  "long_body = ''# A post. This is the body of the post. It has more than one hundred characters of text, so it passes the quality gate.''"

definition short_body :: string where
  "short_body = ''This body is too short to be kept: it has only eighty characters, not a hundred.''"

definition page_of :: "string \<Rightarrow> soup" where
  "page_of body =
     \<lparr>scripts = [], elements = [\<lparr>el_id = None, el_classes = []\<rparr>],
      page_text = body, page_markup = ''<main>'' @ body @ ''</main>''\<rparr>"

text \<open>A static blog: a listing page with two article links, one article with a long body
  and one with a short body. The first strategy returns the page text, nothing else
  succeeds, and there is no browser.\<close>

definition demo_world :: world where
  "demo_world =
     \<lparr>extract_by_semantic_tags = (\<lambda>s. if page_text s = [] then None else Some (page_text s)),
      extract_by_common_classes = (\<lambda>s. None),
      extract_by_content_density = (\<lambda>s. None),
      extract_by_text_length = (\<lambda>s. None),
      extract_title = (\<lambda>s. ''A post''),
      extract_author = (\<lambda>s. ''''),
      fetch_page = (\<lambda>url use_js.
         if use_js then None
         else if url = ''https://example.com/blog'' then Some (page_of ''Posts: a post, short'')
         else if url = ''https://example.com/blog/a-post'' then Some (page_of long_body)
         else if url = ''https://example.com/blog/short'' then Some (page_of short_body)
         else None),
      fetch_with_playwright = (\<lambda>url. None),
      fetch_with_requests_fallback = (\<lambda>url. []),
      find_article_links = (\<lambda>s url.
         [''https://example.com/blog/a-post'', ''https://example.com/blog/short'']),
      click_discovered_urls = (\<lambda>url n. None),
      driver_page = (\<lambda>url. None)\<rparr>"



text \<open>A blog on an allow-listed platform whose listing page loads React, has visible
  text and no SPA container; the browser works and click discovery finds one article.\<close>

definition substack_world :: world where
  "substack_world =
     demo_world
       \<lparr>fetch_page := (\<lambda>url use_js.
          if url = ''https://news.substack.com'' then Some react_page else None),
        find_article_links := (\<lambda>s url. []),
        click_discovered_urls := (\<lambda>url n.
          Some [(''A post about things'', ''https://news.substack.com/p/a-post'')]),
        driver_page := (\<lambda>url.
          if url = ''https://news.substack.com/p/a-post'' then Some (page_of long_body)
          else None)\<rparr>"

text \<open>A short book with two chapter markers.\<close>

definition small_two_chapter_book :: string where
  "small_two_chapter_book =
     ''Chapter 1   '' @ concat (replicate 3 ''alpha beta '')
     @ ''Chapter 2 '' @ concat (replicate 3 ''gamma delta '')"

text \<open>The same platform, with click discovery finding a post whose URL names a podcast.\<close>

definition podcast_world :: world where
  "podcast_world =
     substack_world
       \<lparr>click_discovered_urls := (\<lambda>url n.
          Some [(''Episode one'', ''https://news.substack.com/p/podcast-episode-1'')]),
        driver_page := (\<lambda>url.
          if url = ''https://news.substack.com/p/podcast-episode-1''
          then Some (page_of long_body) else None)\<rparr>"

text \<open>A book of 3000 characters whose two chapter markers are followed by a colon.\<close>

definition colon_book :: string where
  "colon_book =
     ''Chapter 1: '' @ replicate 1489 CHR ''a'' @ '' Chapter 2: '' @ replicate 1488 CHR ''b''"

text \<open>A book with a preface before the first chapter marker, and a book whose first
  chapter is longer than twice the chunk size 100.\<close>

definition preface_book :: string where
  "preface_book = ''Preface text. Chapter 1 The start of it all. Chapter 2. An end''"

definition split_book :: string where
  "split_book = ''Chapter 1 '' @ concat (replicate 20 ''alpha beta '') @ ''Chapter 2 end''"

section \<open>Properties\<close>

lemma contains_iff_sublist: "contains s t \<longleftrightarrow> sublist s t"
  by (induction t) (auto simp: sublist_Cons_right)

subsection \<open>Content type detection\<close>

text \<open>
  \<open>detect_content_type\<close> is a chain of tests with a final default: it returns one of five
  strings, never \<open>book\<close>, and \<open>blog\<close> when no indicator matches.
\<close>

lemma detect_content_type_range:
  "detect_content_type url ttl body \<in>
     {''linkedin_post'', ''blog'', ''reddit_comment'', ''podcast_transcript'', ''call_transcript''}
   \<and> detect_content_type url ttl body \<noteq> ''book''
   \<and> (\<not> contains ''linkedin.com'' (lower url) \<and> \<not> contains ''reddit.com'' (lower url)
        \<and> \<not> any_in podcast_indicators (lower url)
        \<and> \<not> any_in podcast_indicators (lower ttl)
        \<and> \<not> any_in podcast_content_indicators (take 500 (lower body))
        \<and> \<not> any_in call_indicators (lower ttl)
        \<and> \<not> any_in call_content_indicators (take 500 (lower body))
        \<and> \<not> contains ''youtube.com'' (lower url) \<and> \<not> contains ''youtu.be'' (lower url)
      \<longrightarrow> detect_content_type url ttl body = ''blog'')"
  by (simp add: detect_content_type_def Let_def)

subsection \<open>Substrings and searches\<close>

lemma contains_lower: "contains p u \<Longrightarrow> contains (lower p) (lower u)"
  unfolding contains_iff_sublist lower_def by (rule map_mono_sublist)

lemma contains_trans: "contains p q \<Longrightarrow> contains q u \<Longrightarrow> contains p u"
  unfolding contains_iff_sublist by (rule sublist_order.order_trans)

lemma suffix_contains: "suffix q u \<Longrightarrow> contains q u"
  unfolding contains_iff_sublist by (rule suffix_imp_sublist)

lemma any_inI: "p \<in> set ps \<Longrightarrow> contains p s \<Longrightarrow> any_in ps s"
  by (auto simp: any_in_def list_ex_iff)

text \<open>A pattern that matches every text starting with \<open>p\<close> is found in every text that
  contains \<open>p\<close>.\<close>

lemma search_from_prefix:
  "(\<And>prev r. match_atoms as prev (p @ r) \<noteq> None) \<Longrightarrow> contains p u \<Longrightarrow> search_from as prev u"
proof (induction u arbitrary: prev)
  case Nil
  then have "p = []" by simp
  with Nil(1)[of prev "[]"] show ?case by simp
next
  case (Cons c cs)
  show ?case
  proof (cases "prefix p (c # cs)")
    case True
    then obtain r where r: "p @ r = c # cs" by (auto simp: prefix_def)
    from Cons.prems(1)[of prev r] have "match_atoms as prev (c # cs) \<noteq> None"
      unfolding r .
    then show ?thesis by simp
  next
    case False
    with Cons.prems(2) have "contains p cs" by simp
    from Cons.IH[OF Cons.prems(1) this] show ?thesis by simp
  qed
qed

subsection \<open>Article URLs\<close>

lemma date_2024: "match_atoms date_pattern prev (''/2024/'' @ r) \<noteq> None"
  by (simp add: date_pattern_def lit_def is_digit_def code_point_def)

lemma has_date_2024: "contains ''/2024/'' url \<Longrightarrow> has_date url"
  unfolding has_date_def re_search_def
  by (rule search_from_prefix[where p="''/2024/''"]) (rule date_2024, assumption)

text \<open>
  Claim C4, as amended. \<open>is_likely_article_url\<close> is a function of the URL string alone and
  accepts a URL exactly when it has a positive indicator (an article path segment in the
  lower-cased URL, the year pattern, or a modern slug or ID pattern) and the lower-cased
  URL contains no negative indicator. A URL ending \<open>/blog/my-post\<close> and a URL containing
  \<open>/2024/my-post\<close> are accepted when they contain no negative indicator; every URL
  containing \<open>/tag/python\<close> is rejected; a URL ending \<open>/login\<close> is rejected when it has no
  positive indicator (\<open>/login\<close> without a trailing slash is not a negative indicator).
  The four example URLs on the host \<open>example.com\<close> get the verdicts of the spec.
\<close>

theorem is_likely_article_url_rule:
  "(is_likely_article_url url \<longleftrightarrow>
      (has_article_indicator url \<or> has_date url \<or> has_modern_pattern url)
      \<and> \<not> has_avoid_pattern url)
   \<and> (suffix ''/blog/my-post'' url \<and> \<not> has_avoid_pattern url \<longrightarrow> is_likely_article_url url)
   \<and> (contains ''/2024/my-post'' url \<and> \<not> has_avoid_pattern url \<longrightarrow> is_likely_article_url url)
   \<and> (contains ''/tag/python'' url \<longrightarrow> \<not> is_likely_article_url url)
   \<and> (suffix ''/login'' url \<and> \<not> has_article_indicator url \<and> \<not> has_date url
          \<and> \<not> has_modern_pattern url \<longrightarrow> \<not> is_likely_article_url url)
   \<and> is_likely_article_url ''https://example.com/blog/my-post''
   \<and> \<not> is_likely_article_url ''https://example.com/login''
   \<and> is_likely_article_url ''https://example.com/2024/my-post''
   \<and> \<not> is_likely_article_url ''https://example.com/tag/python''"
proof -
  have blog: "has_article_indicator url" if "suffix ''/blog/my-post'' url"
  proof -
    have "contains ''/blog/'' ''/blog/my-post''" by code_simp
    then have "contains ''/blog/'' url"
      using that by (blast intro: contains_trans suffix_contains)
    then have "contains (lower ''/blog/'') (lower url)" by (rule contains_lower)
    moreover have "lower ''/blog/'' = ''/blog/''" by code_simp
    ultimately show ?thesis
      unfolding has_article_indicator_def
      by (auto intro!: any_inI simp: article_indicators_def)
  qed
  have year: "has_date url" if "contains ''/2024/my-post'' url"
  proof -
    have "contains ''/2024/'' ''/2024/my-post''" by code_simp
    then show ?thesis using that by (blast intro: contains_trans has_date_2024)
  qed
  have tag: "has_avoid_pattern url" if "contains ''/tag/python'' url"
  proof -
    have "contains ''/tag/'' ''/tag/python''" by code_simp
    then have "contains ''/tag/'' url" using that by (blast intro: contains_trans)
    then have "contains (lower ''/tag/'') (lower url)" by (rule contains_lower)
    moreover have "lower ''/tag/'' = ''/tag/''" by code_simp
    ultimately show ?thesis
      unfolding has_avoid_pattern_def
      by (auto intro!: any_inI simp: avoid_patterns_def)
  qed
  have e1: "is_likely_article_url ''https://example.com/blog/my-post''" by code_simp
  have e2: "\<not> is_likely_article_url ''https://example.com/login''" by code_simp
  have e3: "is_likely_article_url ''https://example.com/2024/my-post''" by code_simp
  have e4: "\<not> is_likely_article_url ''https://example.com/tag/python''" by code_simp
  show ?thesis
    using blog year tag e1 e2 e3 e4 unfolding is_likely_article_url_def by blast
qed

theorem is_likely_article_url_rule_witness:
  "(suffix ''/blog/my-post'' ''https://example.com/blog/my-post''
      \<and> \<not> has_avoid_pattern ''https://example.com/blog/my-post''
      \<and> is_likely_article_url ''https://example.com/blog/my-post'')
   \<and> (contains ''/2024/my-post'' ''https://example.com/2024/my-post''
      \<and> \<not> has_avoid_pattern ''https://example.com/2024/my-post''
      \<and> is_likely_article_url ''https://example.com/2024/my-post'')
   \<and> (contains ''/tag/python'' ''https://example.com/tag/python''
      \<and> \<not> is_likely_article_url ''https://example.com/tag/python'')
   \<and> (suffix ''/login'' ''https://example.com/login''
      \<and> \<not> has_article_indicator ''https://example.com/login''
      \<and> \<not> has_date ''https://example.com/login''
      \<and> \<not> has_modern_pattern ''https://example.com/login''
      \<and> \<not> is_likely_article_url ''https://example.com/login'')"
proof -
  have h1: "suffix ''/blog/my-post'' ''https://example.com/blog/my-post''
      \<and> \<not> has_avoid_pattern ''https://example.com/blog/my-post''" by code_simp
  have h2: "contains ''/2024/my-post'' ''https://example.com/2024/my-post''
      \<and> \<not> has_avoid_pattern ''https://example.com/2024/my-post''" by code_simp
  have h3: "contains ''/tag/python'' ''https://example.com/tag/python''" by code_simp
  have h4: "suffix ''/login'' ''https://example.com/login''
      \<and> \<not> has_article_indicator ''https://example.com/login''
      \<and> \<not> has_date ''https://example.com/login''
      \<and> \<not> has_modern_pattern ''https://example.com/login''" by code_simp
  note r1 = is_likely_article_url_rule [of "''https://example.com/blog/my-post''",
      THEN conjunct2, THEN conjunct1, THEN mp, OF h1]
  note r2 = is_likely_article_url_rule [of "''https://example.com/2024/my-post''",
      THEN conjunct2, THEN conjunct2, THEN conjunct1, THEN mp, OF h2]
  note r3 = is_likely_article_url_rule [of "''https://example.com/tag/python''",
      THEN conjunct2, THEN conjunct2, THEN conjunct2, THEN conjunct1, THEN mp, OF h3]
  note r4 = is_likely_article_url_rule [of "''https://example.com/login''",
      THEN conjunct2, THEN conjunct2, THEN conjunct2, THEN conjunct2, THEN conjunct1,
      THEN mp, OF h4]
  show ?thesis
    by (intro conjI h1[THEN conjunct1] h1[THEN conjunct2] r1
        h2[THEN conjunct1] h2[THEN conjunct2] r2 h3 r3
        h4[THEN conjunct1] h4[THEN conjunct2, THEN conjunct1]
        h4[THEN conjunct2, THEN conjunct2, THEN conjunct1]
        h4[THEN conjunct2, THEN conjunct2, THEN conjunct2] r4)
qed

text \<open>
  The claim as written fails: this URL ends in \<open>/login\<close> and is accepted. Its host name
  is a three-word slug, a positive indicator, and the negative indicator is \<open>/login/\<close>
  with a trailing slash, which the URL does not contain.
\<close>

theorem is_likely_article_url_login_counterexample:
  "suffix ''/login'' ''https://my-cool-site.com/login''
   \<and> is_likely_article_url ''https://my-cool-site.com/login''"
  by code_simp

subsection \<open>Literal patterns\<close>

lemma first_some_SomeD: "first_some f xs = Some y \<Longrightarrow> \<exists>x \<in> set xs. f x = Some y"
  by (induction xs) (auto split: option.splits)

lemma match_lit_ci:
  "(match_atoms (lit_ci p) prev s \<noteq> None) = prefix (lower p) (lower s)"
proof (induction p arbitrary: prev s)
  case Nil
  then show ?case by (simp add: lit_ci_def lower_def)
next
  case (Cons a p)
  show ?case
  proof (cases s)
    case Nil
    then show ?thesis by (simp add: lit_ci_def lower_def)
  next
    case (Cons c cs)
    have "(match_atoms (lit_ci (a # p)) prev (c # cs) \<noteq> None)
          = (lower_char c = lower_char a \<and> match_atoms (lit_ci p) (Some c) cs \<noteq> None)"
      by (simp add: lit_ci_def)
    also have "\<dots> = (lower_char c = lower_char a \<and> prefix (lower p) (lower cs))"
      using Cons.IH by simp
    also have "\<dots> = prefix (lower (a # p)) (lower (c # cs))"
      by (auto simp: lower_def)
    finally show ?thesis using Cons by simp
  qed
qed

lemma search_lit_ci: "search_from (lit_ci p) prev s = contains (lower p) (lower s)"
proof (induction s arbitrary: prev)
  case Nil
  show ?case using match_lit_ci[of p prev "[]"] by (simp add: lower_def)
next
  case (Cons c cs)
  show ?case using match_lit_ci[of p prev "c # cs"] Cons.IH[of "Some c"]
    by (simp add: lower_def)
qed

lemma match_lit: "(match_atoms (lit p) prev s \<noteq> None) = prefix p s"
proof (induction p arbitrary: prev s)
  case Nil
  then show ?case by (simp add: lit_def)
next
  case (Cons a p)
  then show ?case by (cases s) (auto simp: lit_def)
qed

lemma search_lit: "search_from (lit p) prev s = contains p s"
proof (induction s arbitrary: prev)
  case Nil
  show ?case using match_lit[of p prev "[]"] by simp
next
  case (Cons c cs)
  show ?case using match_lit[of p prev "c # cs"] Cons.IH[of "Some c"] by simp
qed

lemma match_lit_ci_WordB:
  "match_atoms (lit_ci p @ [WordB]) prev s \<noteq> None \<Longrightarrow> match_atoms (lit_ci p) prev s \<noteq> None"
proof (induction p arbitrary: prev s)
  case Nil
  then show ?case by (simp add: lit_ci_def)
next
  case (Cons a p)
  then show ?case by (cases s) (auto simp: lit_ci_def split: if_splits)
qed

lemma search_WordB_lit_ci:
  "search_from ([WordB] @ lit_ci p @ [WordB]) prev s \<Longrightarrow> search_from (lit_ci p) prev s"
proof (induction s arbitrary: prev)
  case Nil
  then show ?case using match_lit_ci_WordB[of p prev "[]"] by (auto split: if_splits)
next
  case (Cons c cs)
  then show ?case using match_lit_ci_WordB[of p prev "c # cs"] by (auto split: if_splits)
qed

lemma framework_flag_iff:
  assumes "lower cap_name = lower name"
  shows "framework_flag name cap_name s = contains (lower name) (lower s)"
  using assms search_WordB_lit_ci[of name None s]
  by (auto simp: framework_flag_def framework_alternatives_def re_search_def search_lit_ci)

lemma has_spa_indicators_iff:
  "has_spa_indicators soup \<longleftrightarrow>
     (\<exists>e \<in> set (elements soup). el_id e = Some ''root'' \<or> el_id e = Some ''app''
        \<or> (\<exists>c \<in> set (el_classes e). contains ''app'' c \<or> contains ''root'' c))"
  by (auto simp: has_spa_indicators_def find_id_def find_class_app_root_def list_ex_iff
        re_search_def search_lit)

lemma lower_names:
  "lower ''React'' = lower ''react''" "lower ''Vue'' = lower ''vue''"
  "lower ''Angular'' = lower ''angular''" "lower ''Next'' = lower ''next''"
  "lower ''react'' = ''react''" "lower ''vue'' = ''vue''"
  "lower ''angular'' = ''angular''" "lower ''next'' = ''next''"
  by code_simp+

subsection \<open>Architecture detection\<close>

text \<open>
  Claim C2. \<open>detect_architecture\<close> decides in this order: a content density below 0.02
  or an SPA marker (an element with id \<open>root\<close> or \<open>app\<close>, or a class token in which
  \<open>app\<close> or \<open>root\<close> occurs) gives \<open>javascript_heavy\<close>; otherwise a framework name
  (\<open>react\<close>, \<open>vue\<close>, \<open>angular\<close>, \<open>next\<close>) occurring in the joined script text, letter
  case ignored, gives \<open>framework_based\<close>; otherwise \<open>static_html\<close>. A page with
  \<open>react\<close> in its script text, density 0.5 and no SPA marker is \<open>framework_based\<close>.
  The density is the exact quotient of the two lengths; Python rounds it to a double,
  which decides the comparison with 0.02 the same way for every markup shorter than
  \<open>10^15\<close> characters.
\<close>

theorem detect_architecture_rule:
  "strategy (detect_architecture soup url) =
     (if density soup < 2 / 100 \<or> has_spa_indicators soup then ''javascript_heavy''
      else if contains ''react'' (lower (script_content soup))
              \<or> contains ''vue'' (lower (script_content soup))
              \<or> contains ''angular'' (lower (script_content soup))
              \<or> contains ''next'' (lower (script_content soup)) then ''framework_based''
      else ''static_html'')
   \<and> (has_spa_indicators soup \<longleftrightarrow>
        (\<exists>e \<in> set (elements soup). el_id e = Some ''root'' \<or> el_id e = Some ''app''
           \<or> (\<exists>c \<in> set (el_classes e). contains ''app'' c \<or> contains ''root'' c)))
   \<and> content_density (detect_architecture soup url) = density soup
   \<and> (contains ''react'' (lower (script_content soup)) \<and> density soup = 5 / 10
        \<and> \<not> has_spa_indicators soup
      \<longrightarrow> strategy (detect_architecture soup url) = ''framework_based'')"
proof -
  have flags:
    "framework_flag ''react'' ''React'' s = contains ''react'' (lower s)"
    "framework_flag ''vue'' ''Vue'' s = contains ''vue'' (lower s)"
    "framework_flag ''angular'' ''Angular'' s = contains ''angular'' (lower s)"
    "framework_flag ''next'' ''Next'' s = contains ''next'' (lower s)" for s
    using framework_flag_iff[OF lower_names(1)] framework_flag_iff[OF lower_names(2)]
      framework_flag_iff[OF lower_names(3)] framework_flag_iff[OF lower_names(4)]
    unfolding lower_names(5-8) by blast+
  have rule: "strategy (detect_architecture soup url) =
     (if density soup < 2 / 100 \<or> has_spa_indicators soup then ''javascript_heavy''
      else if contains ''react'' (lower (script_content soup))
              \<or> contains ''vue'' (lower (script_content soup))
              \<or> contains ''angular'' (lower (script_content soup))
              \<or> contains ''next'' (lower (script_content soup)) then ''framework_based''
      else ''static_html'')"
    by (simp add: detect_architecture_def Let_def flags)
  have dens: "content_density (detect_architecture soup url) = density soup"
    by (simp add: detect_architecture_def Let_def)
  have scen: "strategy (detect_architecture soup url) = ''framework_based''"
    if "contains ''react'' (lower (script_content soup))" "density soup = 5 / 10"
       "\<not> has_spa_indicators soup"
    unfolding rule using that by simp
  show ?thesis
    using rule has_spa_indicators_iff dens scen by blast
qed

theorem detect_architecture_rule_witness:
  "contains ''react'' (lower (script_content react_page)) \<and> density react_page = 5 / 10
   \<and> \<not> has_spa_indicators react_page
   \<and> strategy (detect_architecture react_page ''https://example.com'') = ''framework_based''"
proof -
  have h: "contains ''react'' (lower (script_content react_page)) \<and> density react_page = 5 / 10
        \<and> \<not> has_spa_indicators react_page"
    by code_simp
  note r = detect_architecture_rule [of react_page "''https://example.com''",
      THEN conjunct2, THEN conjunct2, THEN conjunct2, THEN mp, OF h]
  show ?thesis
    by (intro conjI h[THEN conjunct1] h[THEN conjunct2, THEN conjunct1]
        h[THEN conjunct2, THEN conjunct2] r)
qed

subsection \<open>Main content extraction\<close>

lemma extract_main_content_SomeD:
  "extract_main_content w soup = Some c \<Longrightarrow> c \<noteq> [] \<and> is_quality_content c"
  unfolding extract_main_content_def
  by (drule first_some_SomeD) (auto split: option.splits if_splits)

text \<open>
  Claim C3. Whatever the four strategies return, \<open>extract_main_content\<close> returns either
  nothing or a string that passes the quality gate: it is not empty after trimming, its
  trimmed length is at least 100, and the text without the markdown syntax characters
  \<open>#*[]()_`-\<close> is strictly more than half of the text.
\<close>

theorem extract_main_content_quality:
  "extract_main_content w soup = Some c \<Longrightarrow>
     strip c \<noteq> [] \<and> 100 \<le> length (strip c)
     \<and> real (length (filter (\<lambda>x. x \<notin> set ''#*[]()_`-'') c)) / real (length c) > 5 / 10
     \<and> is_quality_content c"
proof -
  assume "extract_main_content w soup = Some c"
  then have q: "is_quality_content c" by (simp add: extract_main_content_SomeD)
  then have len: "100 \<le> length (strip c)"
    by (auto simp: is_quality_content_def split: if_splits)
  then have "strip c \<noteq> []" by auto
  moreover from q
  have "real (length (filter (\<lambda>x. x \<notin> set ''#*[]()_`-'') c)) / real (length c) > 5 / 10"
    by (auto simp: is_quality_content_def markdown_syntax_chars_def Let_def split: if_splits)
  ultimately show ?thesis using len q by simp
qed

theorem extract_main_content_quality_witness:
  "extract_main_content demo_world (page_of long_body) = Some long_body
   \<and> strip long_body \<noteq> [] \<and> 100 \<le> length (strip long_body)
   \<and> real (length (filter (\<lambda>x. x \<notin> set ''#*[]()_`-'') long_body)) / real (length long_body)
       > 5 / 10
   \<and> is_quality_content long_body"
proof -
  have h: "extract_main_content demo_world (page_of long_body) = Some long_body"
    by code_simp
  from extract_main_content_quality [OF h] h show ?thesis by (intro conjI) simp_all
qed

subsection \<open>Scraping a web source\<close>

lemma length_strip_le: "length (strip s) \<le> length s"
proof -
  have "length (strip s) \<le> length (dropWhile is_space s)"
    unfolding strip_def using length_dropWhile_le[of is_space "rev (dropWhile is_space s)"]
    by simp
  also have "\<dots> \<le> length s" by (rule length_dropWhile_le)
  finally show ?thesis .
qed













text \<open>
  Claim C8, as amended. Click discovery runs only when the first fetch of the base URL
  succeeded, the architecture found on that page needs JavaScript, which is the case
  for both the \<open>javascript_heavy\<close> and the \<open>framework_based\<close> strategy, and the
  lower-cased base URL contains one of \<open>quill.co/blog\<close>, \<open>substack.com\<close>,
  \<open>medium.com\<close>, \<open>ghost.org\<close>, \<open>notion.site\<close>. When click discovery ran and found at
  least one article, its items are the whole result of \<open>scrape\<close>.
\<close>

theorem click_discovery_gate:
  "(click_discovery_ran (scrape w base_url n) \<longrightarrow>
      (\<exists>soup0. fetch_page w base_url False = Some soup0
         \<and> needs_js (detect_architecture soup0 base_url)
         \<and> strategy (detect_architecture soup0 base_url)
             \<in> {''javascript_heavy'', ''framework_based''})
      \<and> any_in modern_platforms (lower base_url))
   \<and> (click_discovery_ran (scrape w base_url n)
        \<and> scrape_with_click_discovery w base_url n \<noteq> []
      \<longrightarrow> items (scrape w base_url n) = scrape_with_click_discovery w base_url n)
   \<and> modern_platforms
       = [''quill.co/blog'', ''substack.com'', ''medium.com'', ''ghost.org'', ''notion.site'']"
proof -
  have nj: "needs_js (detect_architecture s u)
            = (strategy (detect_architecture s u) \<in> {''javascript_heavy'', ''framework_based''})"
    for s u
    by (simp add: detect_architecture_def Let_def)
  have a: "(\<exists>soup0. fetch_page w base_url False = Some soup0
         \<and> needs_js (detect_architecture soup0 base_url)
         \<and> strategy (detect_architecture soup0 base_url)
             \<in> {''javascript_heavy'', ''framework_based''})
      \<and> any_in modern_platforms (lower base_url)"
    if "click_discovery_ran (scrape w base_url n)"
    using that unfolding scrape_def Let_def should_use_click_discovery_def
    by (auto simp: nj split: option.splits if_splits)
  have b: "items (scrape w base_url n) = scrape_with_click_discovery w base_url n"
    if "click_discovery_ran (scrape w base_url n)"
       "scrape_with_click_discovery w base_url n \<noteq> []"
    using that unfolding scrape_def Let_def
    by (auto split: option.splits if_splits)
  from a b show ?thesis by (auto simp: modern_platforms_def)
qed

theorem click_discovery_gate_witness:
  "click_discovery_ran (scrape substack_world ''https://news.substack.com'' 50)
   \<and> scrape_with_click_discovery substack_world ''https://news.substack.com'' 50 \<noteq> []
   \<and> any_in modern_platforms (lower ''https://news.substack.com'')
   \<and> items (scrape substack_world ''https://news.substack.com'' 50)
       = scrape_with_click_discovery substack_world ''https://news.substack.com'' 50"
proof -
  have h1: "click_discovery_ran (scrape substack_world ''https://news.substack.com'' 50)"
    by code_simp
  have h2: "scrape_with_click_discovery substack_world ''https://news.substack.com'' 50 \<noteq> []"
    by code_simp
  note t = click_discovery_gate [of substack_world "''https://news.substack.com''" 50]
  note c1 = t [THEN conjunct1, THEN mp, OF h1, THEN conjunct2]
  note c2 = t [THEN conjunct2, THEN conjunct1, THEN mp, OF conjI [OF h1 h2]]
  show ?thesis by (intro conjI h1 h2 c1 c2)
qed

text \<open>
  The claim as written fails: \<open>react_page\<close> has visible text, no SPA container and a
  script that names React, so it is \<open>framework_based\<close>, not \<open>javascript_heavy\<close>, and
  click discovery runs on it all the same.
\<close>

theorem click_discovery_framework_counterexample:
  "fetch_page substack_world ''https://news.substack.com'' False = Some react_page
   \<and> strategy (detect_architecture react_page ''https://news.substack.com'') = ''framework_based''
   \<and> strategy (detect_architecture react_page ''https://news.substack.com'') \<noteq> ''javascript_heavy''
   \<and> click_discovery_ran (scrape substack_world ''https://news.substack.com'' 50)"
  by code_simp

subsection \<open>Content types of web items\<close>

lemma scrape_links_all:
  "(\<And>url it. scrape_article w url use_js = Some it \<Longrightarrow> P it) \<Longrightarrow>
   \<forall>it \<in> set acc. P it \<Longrightarrow>
   \<forall>it \<in> set (scrape_links w use_js urls acc scraped). P it"
proof (induction urls arbitrary: acc scraped)
  case Nil
  then show ?case by simp
next
  case (Cons url urls)
  show ?case
  proof (cases "url \<in> set scraped")
    case True
    then show ?thesis using Cons.IH[OF Cons.prems] by simp
  next
    case False
    show ?thesis
    proof (cases "scrape_article w url use_js")
      case None
      then show ?thesis using False Cons.IH[OF Cons.prems] by simp
    next
      case (Some item)
      then have "\<forall>it \<in> set (acc @ [item]). P it"
        using Cons.prems by auto
      from Cons.IH[OF Cons.prems(1) this] show ?thesis using False Some by simp
    qed
  qed
qed

lemma scrape_article_type:
  "scrape_article w url use_js = Some it \<Longrightarrow>
   content_type it = detect_content_type url (title it) (content it) \<and> source_url it = url"
  by (auto simp: scrape_article_def split: option.splits if_splits)

lemma click_item_type: "click_item w info = Some it \<Longrightarrow> content_type it = ''blog''"
  by (auto simp: click_item_def split: option.splits if_splits)

lemma preview_item_type: "content_type (preview_item link_info) = ''blog''"
  by (simp add: preview_item_def)

lemma map_filter_SomeD: "y \<in> set (List.map_filter f xs) \<Longrightarrow> \<exists>x \<in> set xs. f x = Some y"
  by (auto simp: List.map_filter_def)

lemma scrape_item_types:
  "\<forall>it \<in> set (items (scrape w base_url n)).
     content_type it \<in> {''linkedin_post'', ''blog'', ''reddit_comment'', ''podcast_transcript'',
                         ''call_transcript''}"
proof -
  define valid where "valid = (\<lambda>it :: content_item. content_type it \<in>
     {''linkedin_post'', ''blog'', ''reddit_comment'', ''podcast_transcript'',
      ''call_transcript''})"
  have art: "valid it" if "scrape_article w url use_js = Some it" for url use_js it
    using scrape_article_type[OF that] detect_content_type_range[of url "title it" "content it"]
    by (simp add: valid_def)
  have blog: "valid it" if "content_type it = ''blog''" for it
    using that by (simp add: valid_def)
  have links: "\<forall>it \<in> set (scrape_links w js urls [] []). valid it" for js urls
  proof (rule scrape_links_all)
    show "valid it" if "scrape_article w url js = Some it" for url it
      using that by (rule art)
    show "\<forall>it \<in> set []. valid it" by simp
  qed
  have click: "\<forall>it \<in> set (scrape_with_click_discovery w base_url n). valid it"
  proof
    fix it assume "it \<in> set (scrape_with_click_discovery w base_url n)"
    then obtain info where "click_item w info = Some it"
      by (auto simp: scrape_with_click_discovery_def split: option.splits
            dest: map_filter_SomeD)
    then show "valid it" by (intro blog click_item_type)
  qed
  have prev: "\<forall>it \<in> set (map preview_item ls). valid it" for ls
    by (auto simp: preview_item_type intro: blog)
  have "\<forall>it \<in> set (items (scrape w base_url n)). valid it"
    using links click prev unfolding scrape_def Let_def
    by (auto split: option.splits if_splits)
  then show ?thesis by (simp add: valid_def)
qed

text \<open>
  Claim C9, as amended. For every url, title and content, \<open>detect_content_type\<close> returns
  one of \<open>linkedin_post\<close>, \<open>blog\<close>, \<open>reddit_comment\<close>, \<open>podcast_transcript\<close>,
  \<open>call_transcript\<close>, never \<open>book\<close>, and \<open>blog\<close> when no platform indicator
  (LinkedIn, Reddit, YouTube) and no podcast or call transcript indicator matches. Every
  item that \<open>scrape\<close> returns carries one of these five values. The value is the one
  \<open>detect_content_type\<close> infers from the url, the title and the content only for the
  items of \<open>_scrape_article\<close>; the items of click discovery and the placeholders of the
  requests fallback carry the fixed value \<open>blog\<close>.
\<close>

theorem web_item_content_type:
  "detect_content_type url ttl body \<in>
     {''linkedin_post'', ''blog'', ''reddit_comment'', ''podcast_transcript'', ''call_transcript''}
   \<and> detect_content_type url ttl body \<noteq> ''book''
   \<and> (\<not> contains ''linkedin.com'' (lower url) \<and> \<not> contains ''reddit.com'' (lower url)
        \<and> \<not> any_in podcast_indicators (lower url)
        \<and> \<not> any_in podcast_indicators (lower ttl)
        \<and> \<not> any_in podcast_content_indicators (take 500 (lower body))
        \<and> \<not> any_in call_indicators (lower ttl)
        \<and> \<not> any_in call_content_indicators (take 500 (lower body))
        \<and> \<not> contains ''youtube.com'' (lower url) \<and> \<not> contains ''youtu.be'' (lower url)
      \<longrightarrow> detect_content_type url ttl body = ''blog'')
   \<and> (\<forall>it \<in> set (items (scrape w base_url n)).
         content_type it \<in> {''linkedin_post'', ''blog'', ''reddit_comment'',
                             ''podcast_transcript'', ''call_transcript''}
         \<and> content_type it \<noteq> ''book'')
   \<and> (scrape_article w url use_js = Some item \<longrightarrow>
         content_type item = detect_content_type url (title item) (content item))
   \<and> (click_item w info = Some item \<longrightarrow> content_type item = ''blog'')
   \<and> content_type (preview_item link_info) = ''blog''"
proof -
  have items: "\<forall>it \<in> set (items (scrape w base_url n)).
         content_type it \<in> {''linkedin_post'', ''blog'', ''reddit_comment'',
                             ''podcast_transcript'', ''call_transcript''}
         \<and> content_type it \<noteq> ''book''"
    using scrape_item_types[of w base_url n] by auto
  show ?thesis
    using detect_content_type_range[of url ttl body] items scrape_article_type[of w url use_js item]
      click_item_type[of w info item] preview_item_type[of link_info]
    by blast
qed

theorem web_item_content_type_witness:
  "(\<not> contains ''linkedin.com'' (lower ''https://Example.com/blog/my-post'')
   \<and> \<not> contains ''reddit.com'' (lower ''https://Example.com/blog/my-post'')
   \<and> \<not> any_in podcast_indicators (lower ''https://Example.com/blog/my-post'')
   \<and> \<not> any_in podcast_indicators (lower ''My Post'')
   \<and> \<not> any_in podcast_content_indicators (take 500 (lower ''Some words.''))
   \<and> \<not> any_in call_indicators (lower ''My Post'')
   \<and> \<not> any_in call_content_indicators (take 500 (lower ''Some words.''))
   \<and> \<not> contains ''youtube.com'' (lower ''https://Example.com/blog/my-post'')
   \<and> \<not> contains ''youtu.be'' (lower ''https://Example.com/blog/my-post''))
   \<and> detect_content_type ''https://Example.com/blog/my-post'' ''My Post'' ''Some words.''
       = ''blog''
   \<and> scrape_article demo_world ''https://example.com/blog/a-post'' False
       = Some (the (scrape_article demo_world ''https://example.com/blog/a-post'' False))
   \<and> content_type (the (scrape_article demo_world ''https://example.com/blog/a-post'' False))
       = detect_content_type ''https://example.com/blog/a-post''
           (title (the (scrape_article demo_world ''https://example.com/blog/a-post'' False)))
           (content (the (scrape_article demo_world ''https://example.com/blog/a-post'' False)))
   \<and> length (items (scrape demo_world ''https://example.com/blog'' 50)) = 1
   \<and> list_all (\<lambda>it. content_type it \<in> {''linkedin_post'', ''blog'', ''reddit_comment'',
                                          ''podcast_transcript'', ''call_transcript''}
                      \<and> content_type it \<noteq> ''book'')
        (items (scrape demo_world ''https://example.com/blog'' 50))"
proof -
  have h: "\<not> contains ''linkedin.com'' (lower ''https://Example.com/blog/my-post'')
   \<and> \<not> contains ''reddit.com'' (lower ''https://Example.com/blog/my-post'')
   \<and> \<not> any_in podcast_indicators (lower ''https://Example.com/blog/my-post'')
   \<and> \<not> any_in podcast_indicators (lower ''My Post'')
   \<and> \<not> any_in podcast_content_indicators (take 500 (lower ''Some words.''))
   \<and> \<not> any_in call_indicators (lower ''My Post'')
   \<and> \<not> any_in call_content_indicators (take 500 (lower ''Some words.''))
   \<and> \<not> contains ''youtube.com'' (lower ''https://Example.com/blog/my-post'')
   \<and> \<not> contains ''youtu.be'' (lower ''https://Example.com/blog/my-post'')"
    by code_simp
  have h2: "scrape_article demo_world ''https://example.com/blog/a-post'' False
       = Some (the (scrape_article demo_world ''https://example.com/blog/a-post'' False))"
    by code_simp
  have h3: "length (items (scrape demo_world ''https://example.com/blog'' 50)) = 1"
    by code_simp
  note t1 = web_item_content_type [where url = "''https://Example.com/blog/my-post''"
      and ttl = "''My Post''" and body = "''Some words.''"]
  note c1 = t1 [THEN conjunct2, THEN conjunct2, THEN conjunct1, THEN mp, OF h]
  note t2 = web_item_content_type [where w = demo_world
      and url = "''https://example.com/blog/a-post''" and use_js = False
      and base_url = "''https://example.com/blog''" and n = 50
      and item = "the (scrape_article demo_world ''https://example.com/blog/a-post'' False)"]
  note c2 = t2 [THEN conjunct2, THEN conjunct2, THEN conjunct2, THEN conjunct2,
      THEN conjunct1, THEN mp, OF h2]
  note c3 = list_all_iff [THEN iffD2,
      OF t2 [THEN conjunct2, THEN conjunct2, THEN conjunct2, THEN conjunct1]]
  show ?thesis by (intro conjI h c1 h2 c2 h3 c3)
qed

text \<open>
  The claim as written fails for click discovery: the post found on this platform has
  \<open>podcast\<close> in its URL, so \<open>detect_content_type\<close> infers \<open>podcast_transcript\<close> from the
  URL, title and content of the emitted item, but the item carries \<open>blog\<close>.
\<close>

theorem web_item_content_type_counterexample:
  "map source_url (items (scrape podcast_world ''https://news.substack.com'' 50))
     = [''https://news.substack.com/p/podcast-episode-1'']
   \<and> map title (items (scrape podcast_world ''https://news.substack.com'' 50)) = [''A post'']
   \<and> map content (items (scrape podcast_world ''https://news.substack.com'' 50)) = [long_body]
   \<and> map content_type (items (scrape podcast_world ''https://news.substack.com'' 50)) = [''blog'']
   \<and> detect_content_type ''https://news.substack.com/p/podcast-episode-1'' ''A post'' long_body
       = ''podcast_transcript''"
  by code_simp

subsection \<open>Chunking along chapter markers\<close>

lemma length_py_slice_le: "length (py_slice xs (int a) (int b)) \<le> b - a"
  by (simp add: py_slice_def slice_bound_def Let_def)

lemma find_chapters_first:
  "2 \<le> length (finditer p text) \<Longrightarrow>
   find_chapters_with (p # ps) text = chapters_of text (finditer p text) 0"
  by (simp add: Let_def)

lemma chapter_loop_small:
  "\<forall>ch \<in> set chs. int (length (chapter_content ch)) \<le> chunk_size * 2 \<Longrightarrow>
   chapter_loop fuel chunk_size chunk_overlap n chs i acc =
     Returns (acc @ map (\<lambda>(k, ch). \<lparr>chunk_title = chapter_title ch,
                chunk_content = chapter_content ch, chunk_type = ''book'',
                chunk_index = k, total_chunks = n\<rparr>) (zip [i ..< i + length chs] chs))"
proof (induction chs arbitrary: i acc)
  case Nil
  then show ?case by simp
next
  case (Cons ch chs)
  have small: "\<not> int (length (chapter_content ch)) > chunk_size * 2"
    using Cons.prems by simp
  have rest: "\<forall>ch \<in> set chs. int (length (chapter_content ch)) \<le> chunk_size * 2"
    using Cons.prems by simp
  have up: "[i ..< i + length (ch # chs)] = i # [Suc i ..< Suc i + length chs]"
    by (simp add: upt_rec)
  show ?case
    using small Cons.IH[OF rest, of "Suc i"] unfolding up by simp
qed

text \<open>
  Claim C6, as amended. Let the cleaned text be longer than \<open>chunk_size\<close> and let the
  first chapter pattern have exactly two matches on it: the word \<open>Chapter\<close> in any
  letter case at a word boundary, whitespace, a number, and then a dot or a whitespace
  character. Then the first pattern wins, the chapters are the text from the first match
  start to the second and from the second match start to the end of the text, and when
  both spans are at most twice \<open>chunk_size\<close>, \<open>chunk_text\<close> returns exactly two chunks,
  with \<open>total_chunks\<close> 2 on both. The scenario of the spec, 3000 characters with
  \<open>chunk_size\<close> 1000, is an instance. No loop runs on this path, so the result does not
  depend on the fuel.
\<close>

theorem chunk_text_two_chapters:
  assumes long: "chunk_size < int (length (clean_text raw))"
    and two: "finditer (hd chapter_patterns) (clean_text raw) = [(s1, e1), (s2, e2)]"
    and span1: "int (s2 - s1) \<le> 2 * chunk_size"
    and span2: "int (length (clean_text raw) - s2) \<le> 2 * chunk_size"
  shows "\<exists>chunks. chunk_text fuel chunk_size chunk_overlap raw doc_title = Returns chunks
           \<and> length chunks = 2
           \<and> map total_chunks chunks = [2, 2]
           \<and> map chunk_index chunks = [0, 1]
           \<and> map chunk_content chunks =
                [strip (py_slice (clean_text raw) (int s1) (int s2)),
                 strip (py_slice (clean_text raw) (int s2) (int (length (clean_text raw))))]
           \<and> find_chapter_boundaries (clean_text raw)
                = chapters_of (clean_text raw) [(s1, e1), (s2, e2)] 0"
proof -
  define doc where "doc = clean_text raw"
  define chs where "chs = chapters_of doc [(s1, e1), (s2, e2)] 0"
  have fc: "find_chapter_boundaries doc = chs"
    unfolding find_chapter_boundaries_def chs_def
    using find_chapters_first[of "hd chapter_patterns" doc "tl chapter_patterns"] two
    by (simp add: doc_def chapter_patterns_def)
  have contents: "map chapter_content chs =
      [strip (py_slice doc (int s1) (int s2)), strip (py_slice doc (int s2) (int (length doc)))]"
    by (simp add: chs_def Let_def)
  have len: "length chs = 2" by (simp add: chs_def Let_def)
  have c1: "int (length (strip (py_slice doc (int s1) (int s2)))) \<le> chunk_size * 2"
    using length_strip_le[of "py_slice doc (int s1) (int s2)"]
      length_py_slice_le[of doc s1 s2] span1 by linarith
  have c2: "int (length (strip (py_slice doc (int s2) (int (length doc))))) \<le> chunk_size * 2"
    using length_strip_le[of "py_slice doc (int s2) (int (length doc))"]
      length_py_slice_le[of doc s2 "length doc"] span2 unfolding doc_def by linarith
  have small: "\<forall>ch \<in> set chs. int (length (chapter_content ch)) \<le> chunk_size * 2"
  proof
    fix ch assume "ch \<in> set chs"
    then have "chapter_content ch \<in> set (map chapter_content chs)" by simp
    then show "int (length (chapter_content ch)) \<le> chunk_size * 2"
      unfolding contents using c1 c2 by auto
  qed
  obtain a b where ab: "chs = [a, b]"
    using len by (cases chs; cases "tl chs"; auto)
  have ca: "chapter_content a = strip (py_slice doc (int s1) (int s2))"
    and cb: "chapter_content b = strip (py_slice doc (int s2) (int (length doc)))"
    using contents unfolding ab by simp_all
  have loop: "chapter_loop fuel chunk_size chunk_overlap 2 chs 0 [] =
      Returns [\<lparr>chunk_title = chapter_title a, chunk_content = chapter_content a,
                 chunk_type = ''book'', chunk_index = 0, total_chunks = 2\<rparr>,
               \<lparr>chunk_title = chapter_title b, chunk_content = chapter_content b,
                 chunk_type = ''book'', chunk_index = 1, total_chunks = 2\<rparr>]"
    using chapter_loop_small[OF small, of fuel chunk_overlap 2 0 "[]"]
    unfolding ab by (simp add: upt_rec)
  have ne: "chs \<noteq> []" using ab by simp
  have "chunk_text fuel chunk_size chunk_overlap raw doc_title =
      Returns [\<lparr>chunk_title = chapter_title a, chunk_content = chapter_content a,
                 chunk_type = ''book'', chunk_index = 0, total_chunks = 2\<rparr>,
               \<lparr>chunk_title = chapter_title b, chunk_content = chapter_content b,
                 chunk_type = ''book'', chunk_index = 1, total_chunks = 2\<rparr>]"
    using long fc ne loop len
    unfolding chunk_text_def doc_def[symmetric] Let_def process_chapter_chunks_def
    by (simp add: set_total_def)
  then show ?thesis
    using ca cb fc unfolding doc_def chs_def by simp
qed
theorem chunk_text_two_chapters_witness:
  "40 < int (length (clean_text small_two_chapter_book))
   \<and> finditer (hd chapter_patterns) (clean_text small_two_chapter_book) = [(0, 10), (43, 53)]
   \<and> int (43 - 0) \<le> 2 * 40
   \<and> int (length (clean_text small_two_chapter_book) - 43) \<le> 2 * 40
   \<and> map_option (map total_chunks) (returned (chunk_text 0 40 8 small_two_chapter_book ''Book''))
       = Some [2, 2]
   \<and> map_option (map chunk_index) (returned (chunk_text 0 40 8 small_two_chapter_book ''Book''))
       = Some [0, 1]"
proof -
  have h1: "40 < int (length (clean_text small_two_chapter_book))" by code_simp
  have h2: "finditer (hd chapter_patterns) (clean_text small_two_chapter_book)
              = [(0, 10), (43, 53)]" by code_simp
  have h3: "int (43 - 0) \<le> 2 * 40" by simp
  have h4: "int (length (clean_text small_two_chapter_book) - 43) \<le> 2 * 40" by code_simp
  from chunk_text_two_chapters [OF h1 h2 h3 h4, of 0 8 "''Book''"]
  obtain chunks where r: "chunk_text 0 40 8 small_two_chapter_book ''Book'' = Returns chunks"
    and t: "map total_chunks chunks = [2, 2]" and i: "map chunk_index chunks = [0, 1]"
    by (elim exE conjE)
  have c1: "map_option (map total_chunks)
              (returned (chunk_text 0 40 8 small_two_chapter_book ''Book'')) = Some [2, 2]"
    unfolding r by (simp add: returned_def t)
  have c2: "map_option (map chunk_index)
              (returned (chunk_text 0 40 8 small_two_chapter_book ''Book'')) = Some [0, 1]"
    unfolding r by (simp add: returned_def i)
  show ?thesis by (intro conjI h1 h2 h3 h4 c1 c2)
qed

subsection \<open>Chapter markers that the patterns do not match\<close>

text \<open>
  The text \<open>colon_book\<close> has 3000 characters and the two markers \<open>Chapter 1\<close> and
  \<open>Chapter 2\<close>, each followed by a colon. The facts below evaluate the character
  classes on its characters, walk the eight chapter patterns over it, and run the
  size-based loop on it.
\<close>

lemma lower_facts:
  "lower_char CHR ''C'' = CHR ''c''" "lower_char CHR ''H'' = CHR ''h''"
  "lower_char CHR ''A'' = CHR ''a''" "lower_char CHR ''P'' = CHR ''p''"
  "lower_char CHR ''T'' = CHR ''t''" "lower_char CHR ''E'' = CHR ''e''"
  "lower_char CHR ''R'' = CHR ''r''"
  "lower_char CHR ''c'' = CHR ''c''" "lower_char CHR ''h'' = CHR ''h''"
  "lower_char CHR ''a'' = CHR ''a''" "lower_char CHR ''p'' = CHR ''p''"
  "lower_char CHR ''t'' = CHR ''t''" "lower_char CHR ''e'' = CHR ''e''"
  "lower_char CHR ''r'' = CHR ''r''" "lower_char CHR ''b'' = CHR ''b''"
  "lower_char CHR '' '' = CHR '' ''" "lower_char CHR ''1'' = CHR ''1''"
  "lower_char CHR ''2'' = CHR ''2''" "lower_char CHR '':'' = CHR '':''"
  by code_simp+

lemma class_facts:
  "\<not> is_space CHR ''C''" "\<not> is_space CHR ''h''" "\<not> is_space CHR ''a''"
  "\<not> is_space CHR ''p''" "\<not> is_space CHR ''t''" "\<not> is_space CHR ''e''"
  "\<not> is_space CHR ''r''" "\<not> is_space CHR ''b''" "\<not> is_space CHR ''1''"
  "\<not> is_space CHR ''2''" "\<not> is_space CHR '':''" "is_space CHR '' ''"
  "\<not> is_digit CHR ''C''" "\<not> is_digit CHR ''h''" "\<not> is_digit CHR ''a''"
  "\<not> is_digit CHR ''p''" "\<not> is_digit CHR ''t''" "\<not> is_digit CHR ''e''"
  "\<not> is_digit CHR ''r''" "\<not> is_digit CHR ''b''" "is_digit CHR ''1''"
  "is_digit CHR ''2''" "\<not> is_digit CHR '':''" "\<not> is_digit CHR '' ''"
  "\<not> is_dot CHR '':''" "\<not> is_dot CHR ''a''" "\<not> is_dot CHR ''b''"
  "\<not> dot_or_space CHR '':''"
  "is_word CHR ''C''" "is_word CHR ''a''" "is_word CHR ''b''" "is_word CHR ''1''"
  "is_word CHR ''2''" "\<not> is_word CHR '' ''" "\<not> is_word CHR '':''"
  by code_simp+

lemma scan_skip:
  assumes "\<And>prev s. match_atoms p prev (c # s) = None"
  shows "scan_matches p prev (replicate n c @ rest) pos 0
           = scan_matches p (if n = 0 then prev else Some c) rest (pos + n) 0"
proof (induction n arbitrary: prev pos)
  case 0
  then show ?case by simp
next
  case (Suc n)
  show ?case using assms Suc.IH[of "Some c" "Suc pos"] by simp
qed

lemma filler_a:
  "p \<in> set chapter_patterns \<Longrightarrow> match_atoms p prev (CHR ''a'' # s) = None"
  unfolding chapter_patterns_def
  by (auto simp: lit_ci_def newline_def lower_facts class_facts)

lemma filler_b:
  "p \<in> set chapter_patterns \<Longrightarrow> match_atoms p prev (CHR ''b'' # s) = None"
  unfolding chapter_patterns_def
  by (auto simp: lit_ci_def newline_def lower_facts class_facts)

lemma word_facts:
  "is_word CHR ''h''" "is_word CHR ''p''" "is_word CHR ''t''" "is_word CHR ''e''"
  "is_word CHR ''r''" "is_word CHR ''c''"
  by code_simp+

lemmas char_facts = lower_facts class_facts word_facts

lemma match_empty:
  "p \<in> set chapter_patterns \<Longrightarrow> match_atoms p prev [] = None"
  unfolding chapter_patterns_def
  by (auto simp: lit_ci_def newline_def at_word_boundary_def)

lemma run_b:
  "p \<in> set chapter_patterns \<Longrightarrow> scan_matches p prev (replicate n CHR ''b'') pos 0 = []"
  by (induction n arbitrary: prev pos) (simp_all add: match_empty filler_b)

lemma mid_part:
  "p \<in> set chapter_patterns \<Longrightarrow>
   scan_matches p prev ('' Chapter 2: '' @ replicate n CHR ''b'') pos 0 = []"
  unfolding chapter_patterns_def
  by (auto simp: lit_ci_def newline_def char_facts at_word_boundary_def
        dot_or_space_def is_dot_def run_b[unfolded chapter_patterns_def, simplified])

lemma run_a:
  "p \<in> set chapter_patterns \<Longrightarrow>
   scan_matches p prev (replicate m CHR ''a'' @ '' Chapter 2: '' @ replicate n CHR ''b'') pos 0
     = []"
  by (induction m arbitrary: prev pos) (simp_all add: mid_part[simplified] filler_a)

lemma head_part:
  "p \<in> set chapter_patterns \<Longrightarrow>
   scan_matches p None
     (''Chapter 1: '' @ replicate m CHR ''a'' @ '' Chapter 2: '' @ replicate n CHR ''b'') 0 0
     = []"
  unfolding chapter_patterns_def
  by (auto simp: lit_ci_def newline_def char_facts at_word_boundary_def
        dot_or_space_def is_dot_def run_a[unfolded chapter_patterns_def, simplified])

lemma colon_book_no_match:
  "p \<in> set chapter_patterns \<Longrightarrow> finditer p colon_book = []"
  unfolding finditer_def colon_book_def by (rule head_part)

lemma find_chapters_none:
  "\<forall>p \<in> set ps. finditer p doc = [] \<Longrightarrow> find_chapters_with ps doc = []"
  by (induction ps) (simp_all add: Let_def)

lemma colon_book_no_chapters: "find_chapter_boundaries colon_book = []"
  unfolding find_chapter_boundaries_def
  by (rule find_chapters_none) (simp add: colon_book_no_match)

lemma colon_book_length: "length colon_book = 3000"
  by (simp add: colon_book_def)

lemma collapse_run:
  "\<not> is_space c \<Longrightarrow> collapse_ws (replicate n c @ rest) = replicate n c @ collapse_ws rest"
  by (induction n) simp_all

lemma dropWhile_run:
  "\<not> P c \<Longrightarrow> 0 < n \<Longrightarrow> dropWhile P (replicate n c @ rest) = replicate n c @ rest"
  by (cases n) simp_all

lemma strip_id: "s \<noteq> [] \<Longrightarrow> \<not> is_space (hd s) \<Longrightarrow> \<not> is_space (last s) \<Longrightarrow> strip s = s"
proof -
  assume s: "s \<noteq> []" and h: "\<not> is_space (hd s)" and l: "\<not> is_space (last s)"
  from s h have d: "dropWhile is_space s = s" by (cases s) simp_all
  from s l have "dropWhile is_space (rev s) = rev s"
    by (cases "rev s") (simp_all add: last_rev[symmetric] hd_rev)
  with d show ?thesis by (simp add: strip_def)
qed

lemma colon_book_clean: "clean_text colon_book = colon_book"
proof -
  have c: "collapse_ws colon_book = colon_book"
    unfolding colon_book_def
    using collapse_run[of "CHR ''a''" 1489] collapse_run[of "CHR ''b''" 1488 "[]"]
      dropWhile_run[of is_space "CHR ''a''" 1489] dropWhile_run[of is_space "CHR ''b''" 1488 "[]"]
    by (simp add: class_facts)
  have "strip colon_book = colon_book"
    by (rule strip_id) (simp_all add: colon_book_def class_facts)
  with c show ?thesis by (simp add: clean_text_def)
qed

lemma strip_nonempty: "c \<in> set s \<Longrightarrow> \<not> is_space c \<Longrightarrow> strip s \<noteq> []"
proof
  assume c: "c \<in> set s" and n: "\<not> is_space c" and e: "strip s = []"
  from e have "dropWhile is_space (rev (dropWhile is_space s)) = []"
    by (simp add: strip_def)
  then have "\<forall>x \<in> set (dropWhile is_space s). is_space x"
    by (simp add: dropWhile_eq_Nil_conv)
  moreover have "c \<in> set (takeWhile is_space s) \<or> c \<in> set (dropWhile is_space s)"
    using c takeWhile_dropWhile_id[of is_space s] by (metis Un_iff set_append)
  moreover have "c \<notin> set (takeWhile is_space s)"
    using n by (auto dest: set_takeWhileD)
  ultimately show False using n by blast
qed

lemma nth_in_slice:
  assumes "0 \<le> a" "nat a \<le> k" "k < nat b" "k < length xs"
  shows "xs ! k \<in> set (py_slice xs a b)"
proof -
  let ?lo = "slice_bound (length xs) a" and ?hi = "slice_bound (length xs) b"
  have lo: "?lo = min (nat a) (length xs)" using assms by (simp add: slice_bound_def)
  have hi: "?hi = min (nat b) (length xs)" using assms by (simp add: slice_bound_def)
  have "k - ?lo < length (take (?hi - ?lo) (drop ?lo xs))"
    using assms unfolding lo hi by (simp add: min_def) linarith
  moreover have "take (?hi - ?lo) (drop ?lo xs) ! (k - ?lo) = xs ! k"
    using assms unfolding lo hi by (simp add: min_def)
  ultimately show ?thesis
    unfolding py_slice_def Let_def by (metis nth_mem)
qed

lemma scan_no_punct:
  "\<forall>c \<in> set s. c \<notin> set ''.!?'' \<Longrightarrow> \<forall>i \<in> set is. 0 \<le> i \<Longrightarrow>
   scan_sentence_end s is = Inr None"
proof (induction "is")
  case Nil
  then show ?case by simp
next
  case (Cons i "is")
  have rest: "scan_sentence_end s is = Inr None" using Cons by simp
  show ?case
  proof (cases "i < int (length s)")
    case False
    then show ?thesis using rest by simp
  next
    case True
    then have g: "py_get s i = Inr (s ! nat i)" using Cons.prems(2) by (simp add: py_get_def)
    have "nat i < length s" using True Cons.prems(2) by (simp add: nat_less_iff)
    then have "s ! nat i \<in> set s" by (rule nth_mem)
    then have "s ! nat i \<notin> set ''.!?''" using Cons.prems(1) by blast
    then show ?thesis using True g rest by simp
  qed
qed

lemma size_break_plain:
  assumes "\<forall>c \<in> set doc. c \<notin> set ''.!?''" "0 \<le> end0 - ov"
  shows "size_break doc ov end0 = Inr end0"
proof -
  have "scan_sentence_end doc [end0 - ov .. end0 + ov - 1] = Inr None"
    by (rule scan_no_punct) (use assms in auto)
  then show ?thesis by (simp add: size_break_def)
qed

lemma size_loop_emit:
  assumes "start < int (length doc)" "size_break doc ov (start + cs) = Inr e"
    "strip (py_slice doc start e) \<noteq> []"
  shows "size_loop (Suc fuel) cs ov doc start idx chunks =
     size_loop fuel cs ov doc (if e - ov \<le> 0 then e else e - ov) (idx + 1)
       (chunks @ [\<lparr>chunk_title = ''Section '' @ str_of_nat (idx + 1),
                   chunk_content = strip (py_slice doc start e), chunk_type = ''book'',
                   chunk_index = idx, total_chunks = 0\<rparr>])"
  using assms by (simp add: Let_def)

lemma size_loop_emit':
  assumes "start < int (length doc)" "size_break doc ov (start + cs) = Inr e"
    "strip (py_slice doc start e) \<noteq> []"
    "start' = (if e - ov \<le> 0 then e else e - ov)" "idx' = idx + 1"
    "chunks' = chunks @ [\<lparr>chunk_title = ''Section '' @ str_of_nat (idx + 1),
                   chunk_content = strip (py_slice doc start e), chunk_type = ''book'',
                   chunk_index = idx, total_chunks = 0\<rparr>]"
  shows "size_loop (Suc fuel) cs ov doc start idx chunks =
           size_loop fuel cs ov doc start' idx' chunks'"
  using assms size_loop_emit[of start doc ov cs e fuel idx chunks] by simp

lemma size_loop_done:
  "\<not> start < int (length doc) \<Longrightarrow> size_loop fuel cs ov doc start idx chunks = Returns chunks"
  by (cases fuel) simp_all

lemma colon_book_plain: "\<forall>c \<in> set colon_book. c \<notin> set ''.!?''"
  by (auto simp: colon_book_def)

lemma colon_book_nth:
  "colon_book ! 0 = CHR ''C''" "colon_book ! 800 = CHR ''a''"
  "colon_book ! 1600 = CHR ''b''" "colon_book ! 2400 = CHR ''b''"
  by (simp_all add: colon_book_def nth_append)

lemma colon_book_slices:
  "strip (py_slice colon_book 0 1000) \<noteq> []"
  "strip (py_slice colon_book 800 1800) \<noteq> []"
  "strip (py_slice colon_book 1600 2600) \<noteq> []"
  "strip (py_slice colon_book 2400 3400) \<noteq> []"
proof -
  show "strip (py_slice colon_book 0 1000) \<noteq> []"
    using nth_in_slice[of 0 0 1000 colon_book] colon_book_nth(1) colon_book_length
    by (intro strip_nonempty[of "CHR ''C''"]) (simp_all add: class_facts)
  show "strip (py_slice colon_book 800 1800) \<noteq> []"
    using nth_in_slice[of 800 800 1800 colon_book] colon_book_nth(2) colon_book_length
    by (intro strip_nonempty[of "CHR ''a''"]) (simp_all add: class_facts)
  show "strip (py_slice colon_book 1600 2600) \<noteq> []"
    using nth_in_slice[of 1600 1600 2600 colon_book] colon_book_nth(3) colon_book_length
    by (intro strip_nonempty[of "CHR ''b''"]) (simp_all add: class_facts)
  show "strip (py_slice colon_book 2400 3400) \<noteq> []"
    using nth_in_slice[of 2400 2400 3400 colon_book] colon_book_nth(4) colon_book_length
    by (intro strip_nonempty[of "CHR ''b''"]) (simp_all add: class_facts)
qed

lemma colon_book_sections:
  "\<exists>chunks.
     size_loop (Suc (Suc (Suc (Suc fuel)))) 1000 200 colon_book 0 0 [] = Returns chunks
     \<and> map chunk_index chunks = [0, 1, 2, 3]"
proof -
  note brk = size_break_plain[OF colon_book_plain]
  define c1 where "c1 = \<lparr>chunk_title = ''Section '' @ str_of_nat (0 + 1),
      chunk_content = strip (py_slice colon_book 0 1000), chunk_type = ''book'',
      chunk_index = 0, total_chunks = 0\<rparr>"
  define c2 where "c2 = \<lparr>chunk_title = ''Section '' @ str_of_nat (1 + 1),
      chunk_content = strip (py_slice colon_book 800 1800), chunk_type = ''book'',
      chunk_index = 1, total_chunks = 0\<rparr>"
  define c3 where "c3 = \<lparr>chunk_title = ''Section '' @ str_of_nat (2 + 1),
      chunk_content = strip (py_slice colon_book 1600 2600), chunk_type = ''book'',
      chunk_index = 2, total_chunks = 0\<rparr>"
  define c4 where "c4 = \<lparr>chunk_title = ''Section '' @ str_of_nat (3 + 1),
      chunk_content = strip (py_slice colon_book 2400 3400), chunk_type = ''book'',
      chunk_index = 3, total_chunks = 0\<rparr>"
  have "size_loop (Suc (Suc (Suc (Suc fuel)))) 1000 200 colon_book 0 0 []
          = size_loop (Suc (Suc (Suc fuel))) 1000 200 colon_book 800 1 [c1]"
    by (rule size_loop_emit'[where e = 1000])
       (simp_all add: colon_book_length brk colon_book_slices c1_def)
  also have "\<dots> = size_loop (Suc (Suc fuel)) 1000 200 colon_book 1600 2 [c1, c2]"
    by (rule size_loop_emit'[where e = 1800])
       (simp_all add: colon_book_length brk colon_book_slices c2_def)
  also have "\<dots> = size_loop (Suc fuel) 1000 200 colon_book 2400 3 [c1, c2, c3]"
    by (rule size_loop_emit'[where e = 2600])
       (simp_all add: colon_book_length brk colon_book_slices c3_def)
  also have "\<dots> = size_loop fuel 1000 200 colon_book 3200 4 [c1, c2, c3, c4]"
    by (rule size_loop_emit'[where e = 3400])
       (simp_all add: colon_book_length brk colon_book_slices c4_def)
  also have "\<dots> = Returns [c1, c2, c3, c4]"
    by (rule size_loop_done) (simp add: colon_book_length)
  finally have r: "size_loop (Suc (Suc (Suc (Suc fuel)))) 1000 200 colon_book 0 0 []
                  = Returns [c1, c2, c3, c4]" .
  have i: "map chunk_index [c1, c2, c3, c4] = [0, 1, 2, 3]"
    by (simp add: c1_def c2_def c3_def c4_def)
  show ?thesis by (intro exI[of _ "[c1, c2, c3, c4]"] conjI r i)
qed


lemma set_total_totals: "map total_chunks (set_total cs) = replicate (length cs) (length cs)"
  by (simp add: set_total_def comp_def map_replicate_const)

lemma replicate_four: "replicate 4 x = [x, x, x, x]"
  by (simp add: numeral_eq_Suc)

text \<open>
  The claim as written fails: \<open>colon_book\<close> is a cleaned text of 3000 characters with
  exactly two \<open>Chapter N\<close> markers, but the first pattern wants a dot or a whitespace
  character right after the number and finds a colon. No pattern matches twice, so
  \<open>chunk_text\<close> with \<open>chunk_size\<close> 1000 and overlap 200 falls back to size-based
  chunking and returns four sections.
\<close>

theorem chunk_text_colon_markers_counterexample:
  "clean_text colon_book = colon_book
   \<and> length (clean_text colon_book) = 3000
   \<and> prefix ''Chapter 1: '' colon_book
   \<and> find_chapter_boundaries (clean_text colon_book) = []
   \<and> map_option (map chunk_index) (returned (chunk_text 4 1000 200 colon_book ''Book''))
       = Some [0, 1, 2, 3]
   \<and> map_option (map total_chunks) (returned (chunk_text 4 1000 200 colon_book ''Book''))
       = Some [4, 4, 4, 4]"
proof -
  have four: "(4::nat) = Suc (Suc (Suc (Suc 0)))" by simp
  obtain chunks where r: "size_loop 4 1000 200 colon_book 0 0 [] = Returns chunks"
    and i: "map chunk_index chunks = [0, 1, 2, 3]"
    using colon_book_sections[of 0] unfolding four by (elim exE conjE)
  have len: "length chunks = 4" using arg_cong[OF i, of length] by simp
  have ct: "chunk_text 4 1000 200 colon_book ''Book'' = Returns (set_total chunks)"
    by (simp add: chunk_text_def colon_book_clean colon_book_length colon_book_no_chapters
          size_based_chunking_def r)
  have t: "map total_chunks (set_total chunks) = [4, 4, 4, 4]"
    using set_total_totals[of chunks] replicate_four[of "4::nat"] unfolding len by simp
  have i': "map chunk_index (set_total chunks) = [0, 1, 2, 3]"
    using i by (simp add: set_total_def comp_def)
  have p: "prefix ''Chapter 1: '' colon_book" by (simp add: colon_book_def)
  show ?thesis
    by (simp add: colon_book_clean colon_book_length colon_book_no_chapters p ct returned_def
          t i')
qed

end
